theory Spec2Isabelle
  imports Main "HOL-Library.Word"
begin

section \<open>The RideSurgeFHE contract\<close>

text \<open>
  A shallow embedding of the Solidity contract \<open>RideSurgeFHE\<close> (pragma \<open>^0.8.24\<close>, so
  every arithmetic operation is checked: an overflow reverts with \<open>Panic(0x11)\<close>).
  A transaction either returns the updated storage (\<open>Inr\<close>) or reverts (\<open>Inl\<close>), in
  which case storage is exactly what it was before the call.
\<close>

subsection \<open>Data\<close>

type_synonym uint256 = "256 word"
type_synonym uint32 = "32 word"

text \<open>
  \<open>euint32\<close> is a user-defined value type over \<open>bytes32\<close>: an opaque ciphertext
  handle. Solidity scopes field names by struct; here the fields of \<open>RideDemand\<close> and
  \<open>DriverSupply\<close> carry a prefix, since two of their names occur in all three structs.
\<close>

type_synonym bytes32 = "256 word"
type_synonym euint32 = "256 word"
type_synonym bytes = "8 word list"

record RideDemand =
  demand_encryptedZoneId :: euint32
  demand_encryptedRequestCount :: euint32
  demand_encryptedTimestamp :: euint32

record DriverSupply =
  supply_encryptedZoneId :: euint32
  supply_encryptedAvailableDrivers :: euint32
  supply_encryptedTimestamp :: euint32

record SurgePricing =
  encryptedZoneId :: euint32
  encryptedMultiplier :: euint32
  encryptedBasePrice :: euint32
  isVerified :: bool

datatype event =
    DemandRecorded uint256
  | SupplyRecorded uint256
  | PricingCalculated uint256
  | PricingVerified uint256

text \<open>The callback selector handed to \<open>FHE.requestDecryption\<close>.\<close>

datatype selector = Sel_computePricing | Sel_validatePricing | Sel_decryptMultiplier

text \<open>
  Storage of the contract. A Solidity \<open>mapping\<close> is total: a key never written reads as
  the zero value, so each mapping is a function. Two logs record what the contract sends
  out: the events it emits and the decryption requests it opens with the oracle.
\<close>

record state =
  demandCount :: uint256
  supplyCount :: uint256
  pricingCount :: uint256
  rideDemands :: "uint256 \<Rightarrow> RideDemand"
  driverSupplies :: "uint256 \<Rightarrow> DriverSupply"
  surgePricings :: "uint256 \<Rightarrow> SurgePricing"
  requestToDemandId :: "uint256 \<Rightarrow> uint256"
  requestToSupplyId :: "uint256 \<Rightarrow> uint256"
  requestToPricingId :: "uint256 \<Rightarrow> uint256"
  events :: "event list"
  decryptionRequests :: "(uint256 \<times> bytes32 list \<times> selector) list"

text \<open>
  The reverts of the contract: the five \<open>require\<close> messages, the revert of
  \<open>FHE.checkSignatures\<close>, a revert inside \<open>FHE.requestDecryption\<close>, a failing
  \<open>abi.decode\<close>, and the two compiler panics (arithmetic overflow \<open>0x11\<close>, array
  index out of bounds \<open>0x32\<close>).
\<close>

datatype error =
    InvalidIDs
  | InvalidRequest
  | ZoneMismatch
  | InvalidPricingID
  | NotVerified
  | InvalidSignatures
  | RequestDecryptionReverted
  | AbiDecodeError
  | PanicOverflow
  | PanicArrayIndex

text \<open>
  The FHE library is external to the contract, and what the contract's control flow
  takes from it is a parameter of the model:
  \<^item> the trivial encryption \<open>FHE.asEuint32\<close> and the signature check
    \<open>FHE.checkSignatures\<close>, which reverts when it answers \<open>False\<close>, are the two
    fields of the record \<open>FHE\<close>; the check is a predicate of its three arguments;
  \<^item> the outcome of a call of \<open>FHE.requestDecryption\<close> is an argument of the function
    that makes the call: \<open>Some reqId\<close> when the library returns the request id
    \<open>reqId\<close>, \<open>None\<close> when the library call reverts (the library, not the
    contract, decides which handles it accepts), and then the whole transaction reverts;
  \<^item> \<open>block.timestamp\<close> is an argument of the call that reads it;
  \<^item> the \<open>bytes\<close> argument \<open>cleartexts\<close> of a callback is given by the outcome of
    its \<open>abi.decode\<close>: \<open>None\<close> when decoding reverts.

  \<open>FHE.toBytes32\<close> unwraps the handle.
\<close>

record FHE =
  asEuint32 :: "uint32 \<Rightarrow> euint32"
  checkSignatures :: "uint256 \<Rightarrow> uint32 list option \<Rightarrow> bytes \<Rightarrow> bool"

definition toBytes32 :: "euint32 \<Rightarrow> bytes32" where
  "toBytes32 h = h"

definition zeroDemand :: RideDemand where
  "zeroDemand = \<lparr>demand_encryptedZoneId = 0, demand_encryptedRequestCount = 0,
     demand_encryptedTimestamp = 0\<rparr>"

definition zeroSupply :: DriverSupply where
  "zeroSupply = \<lparr>supply_encryptedZoneId = 0, supply_encryptedAvailableDrivers = 0,
     supply_encryptedTimestamp = 0\<rparr>"

definition zeroPricing :: SurgePricing where
  "zeroPricing = \<lparr>encryptedZoneId = 0, encryptedMultiplier = 0, encryptedBasePrice = 0,
     isVerified = False\<rparr>"

text \<open>Storage of the freshly deployed contract: every slot is zero, nothing was sent.\<close>

definition deployed :: state where
  "deployed = \<lparr>demandCount = 0, supplyCount = 0, pricingCount = 0,
     rideDemands = (\<lambda>_. zeroDemand), driverSupplies = (\<lambda>_. zeroSupply),
     surgePricings = (\<lambda>_. zeroPricing),
     requestToDemandId = (\<lambda>_. 0), requestToSupplyId = (\<lambda>_. 0),
     requestToPricingId = (\<lambda>_. 0), events = [], decryptionRequests = []\<rparr>"

subsection \<open>Submissions\<close>

text \<open>\<open>demandCount++\<close> is checked; \<open>uint32(block.timestamp)\<close> truncates.\<close>

definition recordDemand :: "FHE \<Rightarrow> uint256 \<Rightarrow> state \<Rightarrow> euint32 \<Rightarrow> euint32 \<Rightarrow> error + state" where
  "recordDemand fhe block_timestamp s zoneId requestCount =
     (if demandCount s = - 1 then Inl PanicOverflow
      else
        let n = demandCount s + 1
        in Inr (s\<lparr>demandCount := n,
                  rideDemands := (rideDemands s)(n :=
                    \<lparr>demand_encryptedZoneId = zoneId,
                     demand_encryptedRequestCount = requestCount,
                     demand_encryptedTimestamp = asEuint32 fhe (ucast block_timestamp)\<rparr>),
                  events := events s @ [DemandRecorded n]\<rparr>))"

definition recordSupply :: "FHE \<Rightarrow> uint256 \<Rightarrow> state \<Rightarrow> euint32 \<Rightarrow> euint32 \<Rightarrow> error + state" where
  "recordSupply fhe block_timestamp s zoneId availableDrivers =
     (if supplyCount s = - 1 then Inl PanicOverflow
      else
        let n = supplyCount s + 1
        in Inr (s\<lparr>supplyCount := n,
                  driverSupplies := (driverSupplies s)(n :=
                    \<lparr>supply_encryptedZoneId = zoneId,
                     supply_encryptedAvailableDrivers = availableDrivers,
                     supply_encryptedTimestamp = asEuint32 fhe (ucast block_timestamp)\<rparr>),
                  events := events s @ [SupplyRecorded n]\<rparr>))"

subsection \<open>Pairing\<close>

text \<open>
  \<open>requestDecryption\<close> is the outcome of the call
  \<open>FHE.requestDecryption(ciphertexts, this.computePricing.selector)\<close>, which comes after
  the \<open>require\<close> and before the two writes to the correlation maps.
\<close>

definition calculateSurgePricing :: "uint256 option \<Rightarrow> state \<Rightarrow> uint256 \<Rightarrow> uint256 \<Rightarrow> error + state" where
  "calculateSurgePricing requestDecryption s demandId supplyId =
     (if \<not> (demandId \<le> demandCount s \<and> supplyId \<le> supplyCount s) then Inl InvalidIDs
      else
        let ciphertexts =
              [toBytes32 (demand_encryptedZoneId (rideDemands s demandId)),
               toBytes32 (demand_encryptedRequestCount (rideDemands s demandId)),
               toBytes32 (supply_encryptedZoneId (driverSupplies s supplyId)),
               toBytes32 (supply_encryptedAvailableDrivers (driverSupplies s supplyId))]
        in case requestDecryption of
             None \<Rightarrow> Inl RequestDecryptionReverted
           | Some reqId \<Rightarrow>
               Inr (s\<lparr>decryptionRequests :=
                       decryptionRequests s @ [(reqId, ciphertexts, Sel_computePricing)],
                     requestToDemandId := (requestToDemandId s)(reqId := demandId),
                     requestToSupplyId := (requestToSupplyId s)(reqId := supplyId)\<rparr>))"

text \<open>
  The pricing block of \<open>computePricing\<close> (the lines under "Simplified surge pricing
  calculation"). All three operands of \<open>requestCount * 100\<close> are \<open>uint32\<close>, so the
  product is computed in \<open>uint32\<close> and the checked multiplication reverts when it does
  not fit; the division is only reached with a non-zero divisor.
\<close>

definition surgeMultiplier :: "uint32 \<Rightarrow> uint32 \<Rightarrow> error + uint32" where
  "surgeMultiplier requestCount availableDrivers =
     (if availableDrivers = 0 then Inr 300
      else if 2 ^ 32 \<le> unat requestCount * 100 then Inl PanicOverflow
      else
        let ratio = (requestCount * 100) div availableDrivers
        in Inr (if ratio > 200 then 250
                else if ratio > 150 then 200
                else if ratio > 100 then 150
                else 100))"

definition computePricing :: "FHE \<Rightarrow> state \<Rightarrow> uint256 \<Rightarrow> uint32 list option \<Rightarrow> bytes \<Rightarrow> error + state" where
  "computePricing fhe s requestId cleartexts proof =
     (let demandId = requestToDemandId s requestId;
          supplyId = requestToSupplyId s requestId
      in if \<not> (demandId \<noteq> 0 \<and> supplyId \<noteq> 0) then Inl InvalidRequest
         else if \<not> checkSignatures fhe requestId cleartexts proof then Inl InvalidSignatures
         else case cleartexts of
           None \<Rightarrow> Inl AbiDecodeError
         | Some data \<Rightarrow>
             if length data < 4 then Inl PanicArrayIndex
             else
               let demandZone = data ! 0;
                   requestCount = data ! 1;
                   supplyZone = data ! 2;
                   availableDrivers = data ! 3
               in if \<not> (demandZone = supplyZone) then Inl ZoneMismatch
                  else
                    (case surgeMultiplier requestCount availableDrivers of
                       Inl e \<Rightarrow> Inl e
                     | Inr multiplier \<Rightarrow>
                         if pricingCount s = - 1 then Inl PanicOverflow
                         else
                           let n = pricingCount s + 1
                           in Inr (s\<lparr>pricingCount := n,
                                     surgePricings := (surgePricings s)(n :=
                                       \<lparr>encryptedZoneId = asEuint32 fhe demandZone,
                                        encryptedMultiplier = asEuint32 fhe multiplier,
                                        encryptedBasePrice = asEuint32 fhe 1000,
                                        isVerified = False\<rparr>),
                                     events := events s @ [PricingCalculated n]\<rparr>)))"

subsection \<open>Verification\<close>

definition verifyPricing :: "uint256 option \<Rightarrow> state \<Rightarrow> uint256 \<Rightarrow> error + state" where
  "verifyPricing requestDecryption s pricingId =
     (if \<not> pricingId \<le> pricingCount s then Inl InvalidPricingID
      else
        let ciphertexts =
              [toBytes32 (encryptedZoneId (surgePricings s pricingId)),
               toBytes32 (encryptedMultiplier (surgePricings s pricingId)),
               toBytes32 (encryptedBasePrice (surgePricings s pricingId))]
        in case requestDecryption of
             None \<Rightarrow> Inl RequestDecryptionReverted
           | Some reqId \<Rightarrow>
               Inr (s\<lparr>decryptionRequests :=
                       decryptionRequests s @ [(reqId, ciphertexts, Sel_validatePricing)],
                     requestToPricingId := (requestToPricingId s)(reqId := pricingId)\<rparr>))"

definition validatePricing :: "FHE \<Rightarrow> state \<Rightarrow> uint256 \<Rightarrow> uint32 list option \<Rightarrow> bytes \<Rightarrow> error + state" where
  "validatePricing fhe s requestId cleartexts proof =
     (let pricingId = requestToPricingId s requestId
      in if \<not> pricingId \<noteq> 0 then Inl InvalidRequest
         else if \<not> checkSignatures fhe requestId cleartexts proof then Inl InvalidSignatures
         else case cleartexts of
           None \<Rightarrow> Inl AbiDecodeError
         | Some pricingData \<Rightarrow>
             if length pricingData < 3 then Inl PanicArrayIndex
             else
               let zoneId = pricingData ! 0;
                   multiplier = pricingData ! 1;
                   basePrice = pricingData ! 2;
                   isValid = (multiplier \<ge> 100 \<and> multiplier \<le> 300 \<and> basePrice > 0)
               in if isValid
                  then Inr (s\<lparr>surgePricings := (surgePricings s)(pricingId :=
                                 (surgePricings s pricingId)\<lparr>isVerified := True\<rparr>),
                               events := events s @ [PricingVerified pricingId]\<rparr>)
                  else Inr s)"

subsection \<open>Disclosure\<close>

definition requestPricingProof :: "uint256 option \<Rightarrow> state \<Rightarrow> uint256 \<Rightarrow> error + state" where
  "requestPricingProof requestDecryption s pricingId =
     (if \<not> pricingId \<le> pricingCount s then Inl InvalidPricingID
      else if \<not> isVerified (surgePricings s pricingId) then Inl NotVerified
      else
        let ciphertexts = [toBytes32 (encryptedMultiplier (surgePricings s pricingId))]
        in case requestDecryption of
             None \<Rightarrow> Inl RequestDecryptionReverted
           | Some reqId \<Rightarrow>
               Inr (s\<lparr>decryptionRequests :=
                       decryptionRequests s @ [(reqId, ciphertexts, Sel_decryptMultiplier)],
                     requestToPricingId := (requestToPricingId s)(reqId := pricingId)\<rparr>))"

text \<open>
  \<open>decryptMultiplier\<close> decodes a single \<open>uint32\<close>; the signature check is over the
  same \<open>bytes\<close>, given here as the one-element list of the decoded value.
\<close>

definition decryptMultiplier :: "FHE \<Rightarrow> state \<Rightarrow> uint256 \<Rightarrow> uint32 option \<Rightarrow> bytes \<Rightarrow> error + state" where
  "decryptMultiplier fhe s requestId cleartexts proof =
     (let pricingId = requestToPricingId s requestId
      in if \<not> pricingId \<noteq> 0 then Inl InvalidRequest
         else if \<not> checkSignatures fhe requestId (map_option (\<lambda>m. [m]) cleartexts) proof
           then Inl InvalidSignatures
         else case cleartexts of
           None \<Rightarrow> Inl AbiDecodeError
         | Some multiplier \<Rightarrow> Inr s)"

definition getPricingStatus :: "state \<Rightarrow> uint256 \<Rightarrow> bool" where
  "getPricingStatus s pricingId = isVerified (surgePricings s pricingId)"

definition getDemandCount :: "state \<Rightarrow> uint256" where
  "getDemandCount s = demandCount s"

definition getSupplyCount :: "state \<Rightarrow> uint256" where
  "getSupplyCount s = supplyCount s"

subsection \<open>Transactions and histories\<close>

text \<open>
  One constructor per state-changing entry point of the contract, carrying the
  arguments of the call and what the call reads from its environment.
\<close>

datatype tx =
    RecordDemand uint256 euint32 euint32
  | RecordSupply uint256 euint32 euint32
  | CalculateSurgePricing "uint256 option" uint256 uint256
  | ComputePricing uint256 "uint32 list option" bytes
  | VerifyPricing "uint256 option" uint256
  | ValidatePricing uint256 "uint32 list option" bytes
  | RequestPricingProof "uint256 option" uint256
  | DecryptMultiplier uint256 "uint32 option" bytes

fun call :: "FHE \<Rightarrow> state \<Rightarrow> tx \<Rightarrow> error + state" where
  "call fhe s (RecordDemand ts zoneId requestCount) = recordDemand fhe ts s zoneId requestCount"
| "call fhe s (RecordSupply ts zoneId availableDrivers) = recordSupply fhe ts s zoneId availableDrivers"
| "call fhe s (CalculateSurgePricing requestDecryption demandId supplyId) =
     calculateSurgePricing requestDecryption s demandId supplyId"
| "call fhe s (ComputePricing requestId cleartexts proof) = computePricing fhe s requestId cleartexts proof"
| "call fhe s (VerifyPricing requestDecryption pricingId) =
     verifyPricing requestDecryption s pricingId"
| "call fhe s (ValidatePricing requestId cleartexts proof) = validatePricing fhe s requestId cleartexts proof"
| "call fhe s (RequestPricingProof requestDecryption pricingId) =
     requestPricingProof requestDecryption s pricingId"
| "call fhe s (DecryptMultiplier requestId cleartexts proof) = decryptMultiplier fhe s requestId cleartexts proof"

text \<open>A reverted transaction leaves storage as it was.\<close>

definition exec :: "FHE \<Rightarrow> state \<Rightarrow> tx \<Rightarrow> state" where
  "exec fhe s t = (case call fhe s t of Inl e \<Rightarrow> s | Inr s' \<Rightarrow> s')"

definition run :: "FHE \<Rightarrow> state \<Rightarrow> tx list \<Rightarrow> state" where
  "run fhe s ts = foldl (exec fhe) s ts"

subsection \<open>The pricing function as the specification words it\<close>

text \<open>
  The five-bucket function on unbounded non-negative integers, with truncating integer
  division: no drivers gives 300; otherwise the ratio \<open>requestCount * 100 / availableDrivers\<close>
  is compared with 200, 150 and 100.
\<close>

definition multiplier_spec :: "nat \<Rightarrow> nat \<Rightarrow> nat" where
  "multiplier_spec requestCount availableDrivers =
     (if availableDrivers = 0 then 300
      else
        let ratio = requestCount * 100 div availableDrivers
        in if ratio > 200 then 250
           else if ratio > 150 then 200
           else if ratio > 100 then 150
           else 100)"

subsection \<open>A concrete history\<close>

text \<open>
  An instance of the FHE library for evaluating the contract on concrete inputs: the
  trivial encryption of a value is the value itself, and the only proof that passes the
  signature check is the single byte 1.
\<close>

definition fhe_example :: FHE where
  "fhe_example =
     \<lparr>asEuint32 = ucast, checkSignatures = (\<lambda>requestId cleartexts proof. proof = [1])\<rparr>"

text \<open>
  One demand, one supply, and a pairing request for them that the library accepted and
  numbered 7.
\<close>

definition paired :: state where
  "paired = run fhe_example deployed
     [RecordDemand 1700000000 11 12, RecordSupply 1700000000 11 13,
      CalculateSurgePricing (Some 7) 1 1]"

text \<open>The oracle answers request 7: zone 5 on both sides, 180 requests, 100 drivers.\<close>

definition priced :: state where
  "priced = exec fhe_example paired (ComputePricing 7 (Some [5, 180, 5, 100]) [1])"

text \<open>Verification of pricing 1 is requested; the library numbers the request 8.\<close>

definition verifying :: state where
  "verifying = exec fhe_example priced (VerifyPricing (Some 8) 1)"

text \<open>The oracle answers request 8: zone 5, multiplier 200, base price 1000.\<close>

definition verified :: state where
  "verified = exec fhe_example verifying (ValidatePricing 8 (Some [5, 200, 1000]) [1])"

subsection \<open>Reading ids off the event log\<close>

text \<open>
  Every id the contract allocates is announced by an event: \<open>DemandRecorded\<close>,
  \<open>SupplyRecorded\<close> and \<open>PricingCalculated\<close> carry the id the record was stored
  under. The ids of one kind, in the order in which they were allocated:
\<close>

definition demandIds :: "event list \<Rightarrow> uint256 list" where
  "demandIds es = concat (map (\<lambda>e. case e of DemandRecorded i \<Rightarrow> [i] | _ \<Rightarrow> []) es)"

definition supplyIds :: "event list \<Rightarrow> uint256 list" where
  "supplyIds es = concat (map (\<lambda>e. case e of SupplyRecorded i \<Rightarrow> [i] | _ \<Rightarrow> []) es)"

definition pricingIds :: "event list \<Rightarrow> uint256 list" where
  "pricingIds es = concat (map (\<lambda>e. case e of PricingCalculated i \<Rightarrow> [i] | _ \<Rightarrow> []) es)"

text \<open>The submissions among the transactions of a history.\<close>

definition isRecordDemand :: "tx \<Rightarrow> bool" where
  "isRecordDemand t = (case t of RecordDemand _ _ _ \<Rightarrow> True | _ \<Rightarrow> False)"

definition isRecordSupply :: "tx \<Rightarrow> bool" where
  "isRecordSupply t = (case t of RecordSupply _ _ _ \<Rightarrow> True | _ \<Rightarrow> False)"

definition isComputePricing :: "tx \<Rightarrow> bool" where
  "isComputePricing t = (case t of ComputePricing _ _ _ \<Rightarrow> True | _ \<Rightarrow> False)"

text \<open>
  The number of transactions of a history, run from state \<open>s\<close>, that are of the kind
  \<open>P\<close> and did not revert in the state they were executed in.
\<close>

fun successes :: "(tx \<Rightarrow> bool) \<Rightarrow> FHE \<Rightarrow> state \<Rightarrow> tx list \<Rightarrow> nat" where
  "successes P fhe s [] = 0"
| "successes P fhe s (t # ts) =
     (if P t then (case call fhe s t of Inl e \<Rightarrow> 0 | Inr s' \<Rightarrow> 1) else 0)
       + successes P fhe (exec fhe s t) ts"

text \<open>The ids \<open>1, 2, \<dots>, n\<close> as \<open>uint256\<close> values.\<close>

definition firstIds :: "nat \<Rightarrow> uint256 list" where
  "firstIds n = map of_nat [1..<Suc n]"

subsection \<open>Invariants of the reachable states\<close>

text \<open>
  Every pricing id that a correlation entry points to, and every pricing id marked
  verified, is at most \<open>pricingCount\<close>: the slot the next pricing record will be
  written to is beyond all of them.
\<close>

definition pricing_ids_allocated :: "state \<Rightarrow> bool" where
  "pricing_ids_allocated s \<longleftrightarrow>
     (\<forall>r. requestToPricingId s r \<le> pricingCount s) \<and>
     (\<forall>p. isVerified (surgePricings s p) \<longrightarrow> p \<le> pricingCount s)"

text \<open>The ids announced so far are exactly those up to the counters.\<close>

definition ids_dense :: "state \<Rightarrow> bool" where
  "ids_dense s \<longleftrightarrow>
     demandIds (events s) = firstIds (unat (demandCount s)) \<and>
     supplyIds (events s) = firstIds (unat (supplyCount s)) \<and>
     pricingIds (events s) = firstIds (unat (pricingCount s))"

section \<open>Properties\<close>

lemmas tx_defs = run_def exec_def recordDemand_def recordSupply_def calculateSurgePricing_def
  computePricing_def verifyPricing_def validatePricing_def requestPricingProof_def
  decryptMultiplier_def surgeMultiplier_def deployed_def Let_def fhe_example_def toBytes32_def
  zeroDemand_def zeroSupply_def zeroPricing_def

subsection \<open>Checked increments of a counter\<close>

lemma unat_incr: "x \<noteq> - 1 \<Longrightarrow> unat (x + 1) = Suc (unat x)"
  for x :: "'a::len word"
proof -
  assume "x \<noteq> - 1"
  then have "1 + x \<noteq> 0"
    using max_word_wrap [of x] by (auto simp: add.commute)
  then show ?thesis
    using unatSuc [of x] by (simp add: add.commute)
qed

lemma incr_not_le: "x \<noteq> - 1 \<Longrightarrow> \<not> x + 1 \<le> x"
  for x :: "'a::len word"
  by (simp add: inc_less_eq_self_iff_eq)

lemma le_neq_incr: "x \<noteq> - 1 \<Longrightarrow> i \<le> x \<Longrightarrow> i \<noteq> x + 1"
  for x :: "'a::len word"
  using incr_not_le by blast

subsection \<open>The pricing block\<close>

lemma unat_scaled:
  "unat (requestCount :: uint32) * 100 < 2 ^ 32 \<Longrightarrow>
   unat (requestCount * 100) = unat requestCount * 100"
  by (simp add: unat_word_ariths)

lemma unat_ratio:
  "unat (requestCount :: uint32) * 100 < 2 ^ 32 \<Longrightarrow>
   unat ((requestCount * 100) div availableDrivers)
     = unat requestCount * 100 div unat availableDrivers"
  by (simp add: unat_div unat_scaled)

lemma surgeMultiplier_spec:
  assumes "surgeMultiplier requestCount availableDrivers = Inr m"
  shows "unat m = multiplier_spec (unat requestCount) (unat availableDrivers)"
proof (cases "availableDrivers = 0")
  case True
  with assms show ?thesis by (simp add: surgeMultiplier_def multiplier_spec_def)
next
  case False
  then have nz: "unat availableDrivers \<noteq> 0" by (simp add: unat_eq_0)
  from assms False have fit: "unat requestCount * 100 < 2 ^ 32"
    by (simp add: surgeMultiplier_def split: if_splits)
  from assms False fit nz show ?thesis
    by (auto simp: surgeMultiplier_def multiplier_spec_def Let_def word_less_nat_alt
          unat_ratio split: if_splits)
qed

lemma surgeMultiplier_range:
  "surgeMultiplier requestCount availableDrivers = Inr m \<Longrightarrow> m \<in> {100, 150, 200, 250, 300}"
  by (auto simp: surgeMultiplier_def Let_def split: if_splits)

lemma surgeMultiplier_reverts_iff:
  "surgeMultiplier requestCount availableDrivers = Inl e \<longleftrightarrow>
     e = PanicOverflow \<and> availableDrivers \<noteq> 0 \<and> 2 ^ 32 \<le> unat requestCount * 100"
  by (auto simp: surgeMultiplier_def Let_def split: if_splits)

subsection \<open>What a successful callback did\<close>

lemma computePricing_Inr:
  assumes "computePricing fhe s requestId cleartexts proof = Inr s'"
  shows "\<exists>data multiplier.
           cleartexts = Some data \<and> 4 \<le> length data \<and> data ! 0 = data ! 2 \<and>
           requestToDemandId s requestId \<noteq> 0 \<and> requestToSupplyId s requestId \<noteq> 0 \<and>
           checkSignatures fhe requestId cleartexts proof \<and>
           surgeMultiplier (data ! 1) (data ! 3) = Inr multiplier \<and>
           pricingCount s \<noteq> - 1 \<and>
           s' = s\<lparr>pricingCount := pricingCount s + 1,
                  surgePricings := (surgePricings s)(pricingCount s + 1 :=
                    \<lparr>encryptedZoneId = asEuint32 fhe (data ! 0),
                     encryptedMultiplier = asEuint32 fhe multiplier,
                     encryptedBasePrice = asEuint32 fhe 1000,
                     isVerified = False\<rparr>),
                  events := events s @ [PricingCalculated (pricingCount s + 1)]\<rparr>"
  using assms
  by (auto simp: computePricing_def Let_def split: if_splits option.splits sum.splits)

lemma paired_simps:
  "demandCount paired = 1" "supplyCount paired = 1" "pricingCount paired = 0"
  "requestToDemandId paired 7 = 1" "requestToSupplyId paired 7 = 1"
  by (simp_all add: paired_def tx_defs)

lemma priced_eq:
  "computePricing fhe_example paired 7 (Some [5, 180, 5, 100]) [1] = Inr priced"
  by (simp add: priced_def exec_def computePricing_def paired_simps fhe_example_def
        surgeMultiplier_def Let_def)

lemma priced_simps:
  "pricingCount priced = 1" "\<not> isVerified (surgePricings priced 1)"
  "requestToDemandId priced 7 = 1" "requestToSupplyId priced 7 = 1"
  by (simp_all add: priced_def paired_def tx_defs)

subsection \<open>The surge multiplier\<close>

text \<open>
  Claim C2. When the pairing callback succeeds on the decoded plaintexts \<open>data\<close>, the
  multiplier it stores in the new pricing record is the encryption of the
  specification's five-bucket function of the plaintext pair (requestCount,
  availableDrivers) \<open>= (data ! 1, data ! 3)\<close>, read as unbounded integers. In particular
  no drivers gives 300, and (250,100), (160,100), (120,100), (50,100) give 250, 200, 150
  and 100.
\<close>

theorem computePricing_multiplier_spec:
  "computePricing fhe s requestId (Some data) proof = Inr s' \<Longrightarrow>
     encryptedMultiplier (surgePricings s' (pricingCount s'))
       = asEuint32 fhe (of_nat (multiplier_spec (unat (data ! 1)) (unat (data ! 3))))
     \<and> surgeMultiplier requestCount 0 = Inr 300
     \<and> surgeMultiplier 250 100 = Inr 250
     \<and> surgeMultiplier 160 100 = Inr 200
     \<and> surgeMultiplier 120 100 = Inr 150
     \<and> surgeMultiplier 50 100 = Inr 100"
proof -
  assume ok: "computePricing fhe s requestId (Some data) proof = Inr s'"
  from computePricing_Inr [OF ok] obtain multiplier where
    m: "surgeMultiplier (data ! 1) (data ! 3) = Inr multiplier" and
    s': "encryptedMultiplier (surgePricings s' (pricingCount s')) = asEuint32 fhe multiplier"
    by auto
  have "multiplier = of_nat (unat multiplier)" by simp
  also have "\<dots> = of_nat (multiplier_spec (unat (data ! 1)) (unat (data ! 3)))"
    by (simp only: surgeMultiplier_spec [OF m])
  finally have "encryptedMultiplier (surgePricings s' (pricingCount s'))
       = asEuint32 fhe (of_nat (multiplier_spec (unat (data ! 1)) (unat (data ! 3))))"
    using s' by simp
  moreover have "surgeMultiplier requestCount 0 = Inr 300" by (simp add: surgeMultiplier_def)
  moreover have "surgeMultiplier 250 100 = Inr 250" by (simp add: surgeMultiplier_def)
  moreover have "surgeMultiplier 160 100 = Inr 200" by (simp add: surgeMultiplier_def)
  moreover have "surgeMultiplier 120 100 = Inr 150" by (simp add: surgeMultiplier_def)
  moreover have "surgeMultiplier 50 100 = Inr 100" by (simp add: surgeMultiplier_def)
  ultimately show ?thesis by blast
qed

theorem computePricing_multiplier_spec_witness:
  "computePricing fhe_example paired 7 (Some [5, 180, 5, 100]) [1] = Inr priced
   \<and> encryptedMultiplier (surgePricings priced 1) = 200"
proof -
  from computePricing_multiplier_spec [OF priced_eq]
  have "encryptedMultiplier (surgePricings priced 1)
      = asEuint32 fhe_example
          (of_nat (multiplier_spec (unat (180::uint32)) (unat (100::uint32))))"
    by (simp add: priced_simps)
  then show ?thesis
    using priced_eq by (simp add: multiplier_spec_def fhe_example_def)
qed

text \<open>
  Claim C8. The pricing block is not total on \<open>uint32\<close>: the product
  \<open>requestCount * 100\<close> is a checked \<open>uint32\<close> multiplication, so with a non-zero
  number of drivers every \<open>requestCount\<close> above 42949672 makes the block, and the
  callback around it, revert with an arithmetic panic. Evaluated at
  \<open>requestCount = 42949673\<close>, \<open>availableDrivers = 1\<close>, where the five-bucket function
  is 250.
\<close>

theorem surgeMultiplier_overflow_reverts:
  "surgeMultiplier 42949673 1 = Inl PanicOverflow
   \<and> computePricing fhe_example paired 7 (Some [5, 42949673, 5, 1]) [1] = Inl PanicOverflow
   \<and> multiplier_spec 42949673 1 = 250"
  by (simp add: computePricing_def paired_simps fhe_example_def surgeMultiplier_def
        multiplier_spec_def Let_def)

subsection \<open>The disclosure gate\<close>

text \<open>
  Claim C3. For a pricing record that is not verified, \<open>requestPricingProof\<close> reverts:
  with "Not verified" for every id up to \<open>pricingCount\<close> (an id above it has no record
  and is refused one line earlier, with "Invalid pricing ID"). The reverted call leaves
  storage as it was, so it registers no correlation entry and opens no decryption
  request: a disclosure request is only opened for a verified record.
\<close>

theorem requestPricingProof_unverified:
  "\<not> isVerified (surgePricings s pricingId) \<Longrightarrow>
     requestPricingProof requestDecryption s pricingId
       = Inl (if pricingId \<le> pricingCount s then NotVerified else InvalidPricingID)
     \<and> exec fhe s (RequestPricingProof requestDecryption pricingId) = s"
  by (simp add: requestPricingProof_def exec_def)

theorem requestPricingProof_unverified_witness:
  "\<not> isVerified (surgePricings priced 1)
   \<and> requestPricingProof (Some 9) priced 1 = Inl NotVerified
   \<and> exec fhe_example priced (RequestPricingProof (Some 9) 1) = priced"
proof -
  have h: "\<not> isVerified (surgePricings priced 1)"
    by (simp add: priced_simps)
  from requestPricingProof_unverified [OF h, of "Some 9" fhe_example] h
  show ?thesis by (simp add: priced_simps)
qed

subsection \<open>The zone gate\<close>

text \<open>
  Claim C5. A pairing callback whose decoded demand zone \<open>data ! 0\<close> differs from its
  supply zone \<open>data ! 2\<close> always reverts, whatever the request count and the number of
  drivers: with "Zone mismatch" once the request id is known and the signatures check,
  and with the error of those two earlier checks otherwise. Storage is unchanged, so no
  pricing record is created and \<open>pricingCount\<close> stays.
\<close>

theorem computePricing_zone_gate:
  "4 \<le> length data \<Longrightarrow> data ! 0 \<noteq> data ! 2 \<Longrightarrow>
     computePricing fhe s requestId (Some data) proof
       = Inl (if \<not> (requestToDemandId s requestId \<noteq> 0 \<and> requestToSupplyId s requestId \<noteq> 0)
              then InvalidRequest
              else if \<not> checkSignatures fhe requestId (Some data) proof then InvalidSignatures
              else ZoneMismatch)
     \<and> exec fhe s (ComputePricing requestId (Some data) proof) = s"
  by (simp add: computePricing_def exec_def Let_def)

theorem computePricing_zone_gate_witness:
  "computePricing fhe_example paired 7 (Some [5, 180, 6, 100]) [1] = Inl ZoneMismatch
   \<and> exec fhe_example paired (ComputePricing 7 (Some [5, 180, 6, 100]) [1]) = paired"
proof -
  have l: "4 \<le> length [5, 180, 6, 100 :: uint32]" by simp
  have z: "[5, 180, 6, 100 :: uint32] ! 0 \<noteq> [5, 180, 6, 100] ! 2" by simp
  have c: "checkSignatures fhe_example 7 (Some [5, 180, 6, 100]) [1]"
    by (simp add: fhe_example_def)
  from computePricing_zone_gate [OF l z, of fhe_example paired 7 "[1]"] c
  show ?thesis by (simp add: paired_simps)
qed

subsection \<open>Submissions\<close>


lemma recordDemand_Inr:
  "demandCount s \<noteq> - 1 \<Longrightarrow>
   recordDemand fhe block_timestamp s zoneId requestCount
     = Inr (s\<lparr>demandCount := demandCount s + 1,
               rideDemands := (rideDemands s)(demandCount s + 1 :=
                 \<lparr>demand_encryptedZoneId = zoneId,
                  demand_encryptedRequestCount = requestCount,
                  demand_encryptedTimestamp = asEuint32 fhe (ucast block_timestamp)\<rparr>),
               events := events s @ [DemandRecorded (demandCount s + 1)]\<rparr>)"
  by (simp add: recordDemand_def Let_def)

lemma recordSupply_Inr:
  "supplyCount s \<noteq> - 1 \<Longrightarrow>
   recordSupply fhe block_timestamp s zoneId availableDrivers
     = Inr (s\<lparr>supplyCount := supplyCount s + 1,
               driverSupplies := (driverSupplies s)(supplyCount s + 1 :=
                 \<lparr>supply_encryptedZoneId = zoneId,
                  supply_encryptedAvailableDrivers = availableDrivers,
                  supply_encryptedTimestamp = asEuint32 fhe (ucast block_timestamp)\<rparr>),
               events := events s @ [SupplyRecorded (supplyCount s + 1)]\<rparr>)"
  by (simp add: recordSupply_def Let_def)

text \<open>
  Claim C10. \<open>recordDemand\<close> has no \<open>require\<close>: unless the counter is saturated
  (the checked \<open>demandCount++\<close> would overflow) it succeeds for every pair of handles,
  adds exactly one to \<open>demandCount\<close>, writes the new record at the fresh id, which
  differs from every id allocated before, appends one \<open>DemandRecorded\<close> event, and
  leaves the other two counters, all other demand records, all supply and pricing
  records, the three correlation maps and the decryption requests as they were.
  \<open>recordSupply\<close> does the same on \<open>supplyCount\<close> and \<open>driverSupplies\<close>.
\<close>

theorem record_submission_frame:
  "(demandCount s \<noteq> - 1 \<longrightarrow>
      (\<exists>s'. recordDemand fhe block_timestamp s zoneId requestCount = Inr s'
         \<and> demandCount s' = demandCount s + 1
         \<and> unat (demandCount s') = unat (demandCount s) + 1
         \<and> rideDemands s' (demandCount s') =
             \<lparr>demand_encryptedZoneId = zoneId,
              demand_encryptedRequestCount = requestCount,
              demand_encryptedTimestamp = asEuint32 fhe (ucast block_timestamp)\<rparr>
         \<and> (\<forall>i. i \<noteq> demandCount s' \<longrightarrow> rideDemands s' i = rideDemands s i)
         \<and> (\<forall>i. i \<le> demandCount s \<longrightarrow> rideDemands s' i = rideDemands s i)
         \<and> supplyCount s' = supplyCount s \<and> pricingCount s' = pricingCount s
         \<and> driverSupplies s' = driverSupplies s \<and> surgePricings s' = surgePricings s
         \<and> requestToDemandId s' = requestToDemandId s
         \<and> requestToSupplyId s' = requestToSupplyId s
         \<and> requestToPricingId s' = requestToPricingId s
         \<and> decryptionRequests s' = decryptionRequests s
         \<and> events s' = events s @ [DemandRecorded (demandCount s')]))
   \<and> (supplyCount s \<noteq> - 1 \<longrightarrow>
      (\<exists>s'. recordSupply fhe block_timestamp s zoneId availableDrivers = Inr s'
         \<and> supplyCount s' = supplyCount s + 1
         \<and> unat (supplyCount s') = unat (supplyCount s) + 1
         \<and> driverSupplies s' (supplyCount s') =
             \<lparr>supply_encryptedZoneId = zoneId,
              supply_encryptedAvailableDrivers = availableDrivers,
              supply_encryptedTimestamp = asEuint32 fhe (ucast block_timestamp)\<rparr>
         \<and> (\<forall>i. i \<noteq> supplyCount s' \<longrightarrow> driverSupplies s' i = driverSupplies s i)
         \<and> (\<forall>i. i \<le> supplyCount s \<longrightarrow> driverSupplies s' i = driverSupplies s i)
         \<and> demandCount s' = demandCount s \<and> pricingCount s' = pricingCount s
         \<and> rideDemands s' = rideDemands s \<and> surgePricings s' = surgePricings s
         \<and> requestToDemandId s' = requestToDemandId s
         \<and> requestToSupplyId s' = requestToSupplyId s
         \<and> requestToPricingId s' = requestToPricingId s
         \<and> decryptionRequests s' = decryptionRequests s
         \<and> events s' = events s @ [SupplyRecorded (supplyCount s')]))"
proof (intro conjI impI)
  assume n: "demandCount s \<noteq> - 1"
  show "\<exists>s'. recordDemand fhe block_timestamp s zoneId requestCount = Inr s'
         \<and> demandCount s' = demandCount s + 1
         \<and> unat (demandCount s') = unat (demandCount s) + 1
         \<and> rideDemands s' (demandCount s') =
             \<lparr>demand_encryptedZoneId = zoneId,
              demand_encryptedRequestCount = requestCount,
              demand_encryptedTimestamp = asEuint32 fhe (ucast block_timestamp)\<rparr>
         \<and> (\<forall>i. i \<noteq> demandCount s' \<longrightarrow> rideDemands s' i = rideDemands s i)
         \<and> (\<forall>i. i \<le> demandCount s \<longrightarrow> rideDemands s' i = rideDemands s i)
         \<and> supplyCount s' = supplyCount s \<and> pricingCount s' = pricingCount s
         \<and> driverSupplies s' = driverSupplies s \<and> surgePricings s' = surgePricings s
         \<and> requestToDemandId s' = requestToDemandId s
         \<and> requestToSupplyId s' = requestToSupplyId s
         \<and> requestToPricingId s' = requestToPricingId s
         \<and> decryptionRequests s' = decryptionRequests s
         \<and> events s' = events s @ [DemandRecorded (demandCount s')]"
    using n le_neq_incr [OF n]
    by (simp add: recordDemand_Inr unat_incr)
next
  assume n: "supplyCount s \<noteq> - 1"
  show "\<exists>s'. recordSupply fhe block_timestamp s zoneId availableDrivers = Inr s'
         \<and> supplyCount s' = supplyCount s + 1
         \<and> unat (supplyCount s') = unat (supplyCount s) + 1
         \<and> driverSupplies s' (supplyCount s') =
             \<lparr>supply_encryptedZoneId = zoneId,
              supply_encryptedAvailableDrivers = availableDrivers,
              supply_encryptedTimestamp = asEuint32 fhe (ucast block_timestamp)\<rparr>
         \<and> (\<forall>i. i \<noteq> supplyCount s' \<longrightarrow> driverSupplies s' i = driverSupplies s i)
         \<and> (\<forall>i. i \<le> supplyCount s \<longrightarrow> driverSupplies s' i = driverSupplies s i)
         \<and> demandCount s' = demandCount s \<and> pricingCount s' = pricingCount s
         \<and> rideDemands s' = rideDemands s \<and> surgePricings s' = surgePricings s
         \<and> requestToDemandId s' = requestToDemandId s
         \<and> requestToSupplyId s' = requestToSupplyId s
         \<and> requestToPricingId s' = requestToPricingId s
         \<and> decryptionRequests s' = decryptionRequests s
         \<and> events s' = events s @ [SupplyRecorded (supplyCount s')]"
    using n le_neq_incr [OF n]
    by (simp add: recordSupply_Inr unat_incr)
qed

theorem record_submission_frame_witness:
  "demandCount paired \<noteq> - 1 \<and> supplyCount paired \<noteq> - 1
   \<and> demandCount (exec fhe_example paired (RecordDemand 1700000060 21 22)) = 2
   \<and> supplyCount (exec fhe_example paired (RecordDemand 1700000060 21 22)) = 1
   \<and> rideDemands (exec fhe_example paired (RecordDemand 1700000060 21 22)) 1 = rideDemands paired 1
   \<and> supplyCount (exec fhe_example paired (RecordSupply 1700000060 21 23)) = 2
   \<and> demandCount (exec fhe_example paired (RecordSupply 1700000060 21 23)) = 1
   \<and> driverSupplies (exec fhe_example paired (RecordSupply 1700000060 21 23)) 1 = driverSupplies paired 1"
proof -
  have d: "demandCount paired \<noteq> - 1" and u: "supplyCount paired \<noteq> - 1"
    by (simp_all add: paired_simps)
  from record_submission_frame [of paired fhe_example 1700000060 21 22 23] d u
  obtain s' s'' where
    "recordDemand fhe_example 1700000060 paired 21 22 = Inr s'"
    "demandCount s' = demandCount paired + 1" "supplyCount s' = supplyCount paired"
    "\<forall>i. i \<le> demandCount paired \<longrightarrow> rideDemands s' i = rideDemands paired i"
    "recordSupply fhe_example 1700000060 paired 21 23 = Inr s''"
    "supplyCount s'' = supplyCount paired + 1" "demandCount s'' = demandCount paired"
    "\<forall>i. i \<le> supplyCount paired \<longrightarrow> driverSupplies s'' i = driverSupplies paired i"
    by blast
  then show ?thesis using d u
    by (simp add: exec_def paired_simps)
qed

subsection \<open>What the verification callbacks did\<close>

lemma validatePricing_Some:
  "validatePricing fhe s requestId (Some pricingData) proof =
     (if requestToPricingId s requestId = 0 then Inl InvalidRequest
      else if \<not> checkSignatures fhe requestId (Some pricingData) proof then Inl InvalidSignatures
      else if length pricingData < 3 then Inl PanicArrayIndex
      else if pricingData ! 1 \<ge> 100 \<and> pricingData ! 1 \<le> 300 \<and> pricingData ! 2 > 0
      then Inr (s\<lparr>surgePricings := (surgePricings s)(requestToPricingId s requestId :=
                    (surgePricings s (requestToPricingId s requestId))\<lparr>isVerified := True\<rparr>),
                  events := events s @ [PricingVerified (requestToPricingId s requestId)]\<rparr>)
      else Inr s)"
  by (simp add: validatePricing_def Let_def)

lemma validatePricing_None:
  "validatePricing fhe s requestId None proof \<noteq> Inr s'"
  by (simp add: validatePricing_def Let_def)

lemma validatePricing_Inr:
  assumes ok: "validatePricing fhe s requestId cleartexts proof = Inr s'"
  shows "\<exists>pricingData.
           cleartexts = Some pricingData \<and> 3 \<le> length pricingData \<and>
           requestToPricingId s requestId \<noteq> 0 \<and>
           checkSignatures fhe requestId cleartexts proof \<and>
           ((pricingData ! 1 \<ge> 100 \<and> pricingData ! 1 \<le> 300 \<and> pricingData ! 2 > 0) \<and>
            s' = s\<lparr>surgePricings := (surgePricings s)(requestToPricingId s requestId :=
                      (surgePricings s (requestToPricingId s requestId))\<lparr>isVerified := True\<rparr>),
                    events := events s @ [PricingVerified (requestToPricingId s requestId)]\<rparr>
            \<or> \<not> (pricingData ! 1 \<ge> 100 \<and> pricingData ! 1 \<le> 300 \<and> pricingData ! 2 > 0) \<and>
            s' = s)"
proof (cases cleartexts)
  case None
  with ok validatePricing_None show ?thesis by blast
next
  case (Some pricingData)
  define v where "v = (pricingData ! 1 \<ge> 100 \<and> pricingData ! 1 \<le> 300 \<and> pricingData ! 2 > 0)"
  define X where "X = s\<lparr>surgePricings := (surgePricings s)(requestToPricingId s requestId :=
                      (surgePricings s (requestToPricingId s requestId))\<lparr>isVerified := True\<rparr>),
                    events := events s @ [PricingVerified (requestToPricingId s requestId)]\<rparr>"
  have eq: "validatePricing fhe s requestId (Some pricingData) proof =
     (if requestToPricingId s requestId = 0 then Inl InvalidRequest
      else if \<not> checkSignatures fhe requestId (Some pricingData) proof then Inl InvalidSignatures
      else if length pricingData < 3 then Inl PanicArrayIndex
      else if v then Inr X else Inr s)"
    unfolding v_def X_def by (rule validatePricing_Some)
  from ok Some eq have a: "requestToPricingId s requestId \<noteq> 0"
    and b: "checkSignatures fhe requestId (Some pricingData) proof"
    and c: "3 \<le> length pricingData"
    and d: "v \<and> s' = X \<or> \<not> v \<and> s' = s"
    by (auto split: if_split_asm)
  from d have "(pricingData ! 1 \<ge> 100 \<and> pricingData ! 1 \<le> 300 \<and> pricingData ! 2 > 0) \<and>
            s' = s\<lparr>surgePricings := (surgePricings s)(requestToPricingId s requestId :=
                      (surgePricings s (requestToPricingId s requestId))\<lparr>isVerified := True\<rparr>),
                    events := events s @ [PricingVerified (requestToPricingId s requestId)]\<rparr>
            \<or> \<not> (pricingData ! 1 \<ge> 100 \<and> pricingData ! 1 \<le> 300 \<and> pricingData ! 2 > 0) \<and>
            s' = s"
    unfolding v_def X_def .
  with Some a b c show ?thesis by blast
qed

lemma decryptMultiplier_Inr:
  "decryptMultiplier fhe s requestId cleartexts proof = Inr s' \<Longrightarrow> s' = s"
  by (simp add: decryptMultiplier_def Let_def split: if_split_asm option.split_asm)

lemma computePricing_success:
  assumes "requestToDemandId s requestId \<noteq> 0" "requestToSupplyId s requestId \<noteq> 0"
    and "checkSignatures fhe requestId (Some data) proof"
    and "4 \<le> length data" "data ! 0 = data ! 2"
    and "surgeMultiplier (data ! 1) (data ! 3) = Inr multiplier"
  shows "computePricing fhe s requestId (Some data) proof =
           (if pricingCount s = - 1 then Inl PanicOverflow
            else Inr (s\<lparr>pricingCount := pricingCount s + 1,
                  surgePricings := (surgePricings s)(pricingCount s + 1 :=
                    \<lparr>encryptedZoneId = asEuint32 fhe (data ! 0),
                     encryptedMultiplier = asEuint32 fhe multiplier,
                     encryptedBasePrice = asEuint32 fhe 1000,
                     isVerified = False\<rparr>),
                  events := events s @ [PricingCalculated (pricingCount s + 1)]\<rparr>))"
  using assms by (simp add: computePricing_def Let_def)

lemma computePricing_again:
  assumes ok: "computePricing fhe s requestId cleartexts proof = Inr s'"
  shows "requestToDemandId s' = requestToDemandId s"
    and "requestToSupplyId s' = requestToSupplyId s"
    and "requestToPricingId s' = requestToPricingId s"
    and "computePricing fhe s' requestId cleartexts proof
          = (if pricingCount s' = - 1 then Inl PanicOverflow
             else Inr (exec fhe s' (ComputePricing requestId cleartexts proof)))"
    and "pricingCount (exec fhe s' (ComputePricing requestId cleartexts proof))
          = (if pricingCount s' = - 1 then pricingCount s' else pricingCount s' + 1)"
proof -
  from computePricing_Inr [OF ok] obtain data multiplier where
    c: "cleartexts = Some data" and l: "4 \<le> length data" and z: "data ! 0 = data ! 2" and
    d: "requestToDemandId s requestId \<noteq> 0" and u: "requestToSupplyId s requestId \<noteq> 0" and
    g: "checkSignatures fhe requestId cleartexts proof" and
    m: "surgeMultiplier (data ! 1) (data ! 3) = Inr multiplier" and
    s': "s' = s\<lparr>pricingCount := pricingCount s + 1,
                  surgePricings := (surgePricings s)(pricingCount s + 1 :=
                    \<lparr>encryptedZoneId = asEuint32 fhe (data ! 0),
                     encryptedMultiplier = asEuint32 fhe multiplier,
                     encryptedBasePrice = asEuint32 fhe 1000,
                     isVerified = False\<rparr>),
                  events := events s @ [PricingCalculated (pricingCount s + 1)]\<rparr>"
    by blast
  show a: "requestToDemandId s' = requestToDemandId s"
    and b: "requestToSupplyId s' = requestToSupplyId s"
    and "requestToPricingId s' = requestToPricingId s"
    by (simp_all add: s')
  from d u a b have d': "requestToDemandId s' requestId \<noteq> 0"
    and u': "requestToSupplyId s' requestId \<noteq> 0" by simp_all
  from g c have g': "checkSignatures fhe requestId (Some data) proof" by simp
  note again = computePricing_success [OF d' u' g' l z m]
  show "computePricing fhe s' requestId cleartexts proof
          = (if pricingCount s' = - 1 then Inl PanicOverflow
             else Inr (exec fhe s' (ComputePricing requestId cleartexts proof)))"
    by (simp add: c exec_def again)
  show "pricingCount (exec fhe s' (ComputePricing requestId cleartexts proof))
          = (if pricingCount s' = - 1 then pricingCount s' else pricingCount s' + 1)"
    by (simp add: c exec_def again)
qed

lemma validatePricing_again:
  assumes ok: "validatePricing fhe s requestId cleartexts proof = Inr s'"
  shows "requestToDemandId s' = requestToDemandId s"
    and "requestToSupplyId s' = requestToSupplyId s"
    and "requestToPricingId s' = requestToPricingId s"
    and "validatePricing fhe s' requestId cleartexts proof
          = Inr (exec fhe s' (ValidatePricing requestId cleartexts proof))"
    and "surgePricings (exec fhe s' (ValidatePricing requestId cleartexts proof))
          = surgePricings s'"
proof -
  from validatePricing_Inr [OF ok] obtain pricingData where
    c: "cleartexts = Some pricingData" and l: "3 \<le> length pricingData" and
    p: "requestToPricingId s requestId \<noteq> 0" and
    g: "checkSignatures fhe requestId cleartexts proof" and
    d: "(pricingData ! 1 \<ge> 100 \<and> pricingData ! 1 \<le> 300 \<and> pricingData ! 2 > 0) \<and>
            s' = s\<lparr>surgePricings := (surgePricings s)(requestToPricingId s requestId :=
                      (surgePricings s (requestToPricingId s requestId))\<lparr>isVerified := True\<rparr>),
                    events := events s @ [PricingVerified (requestToPricingId s requestId)]\<rparr>
            \<or> \<not> (pricingData ! 1 \<ge> 100 \<and> pricingData ! 1 \<le> 300 \<and> pricingData ! 2 > 0) \<and>
            s' = s"
    by blast
  from d show "requestToDemandId s' = requestToDemandId s"
    and "requestToSupplyId s' = requestToSupplyId s"
    and r: "requestToPricingId s' = requestToPricingId s"
    by auto
  from l have nl: "\<not> length pricingData < 3" by simp
  from g c have g': "checkSignatures fhe requestId (Some pricingData) proof" by simp
  from p r have p': "requestToPricingId s' requestId \<noteq> 0" by simp
  define v where "v = (pricingData ! 1 \<ge> 100 \<and> pricingData ! 1 \<le> 300 \<and> pricingData ! 2 > 0)"
  have eq: "validatePricing fhe s' requestId (Some pricingData) proof =
      (if v then Inr (s'\<lparr>surgePricings := (surgePricings s')(requestToPricingId s' requestId :=
                    (surgePricings s' (requestToPricingId s' requestId))\<lparr>isVerified := True\<rparr>),
                  events := events s' @ [PricingVerified (requestToPricingId s' requestId)]\<rparr>)
       else Inr s')"
    unfolding v_def using p' g' nl by (simp only: validatePricing_Some if_False if_True simp_thms)
  show "validatePricing fhe s' requestId cleartexts proof
          = Inr (exec fhe s' (ValidatePricing requestId cleartexts proof))"
    by (cases v) (simp_all add: c exec_def eq)
  from d have d': "v \<and> isVerified (surgePricings s' (requestToPricingId s' requestId)) \<or> \<not> v"
    unfolding v_def by (auto simp: r)
  show "surgePricings (exec fhe s' (ValidatePricing requestId cleartexts proof))
          = surgePricings s'"
  proof (cases v)
    case True
    with d' have "isVerified (surgePricings s' (requestToPricingId s' requestId))" by simp
    then have "(surgePricings s' (requestToPricingId s' requestId))\<lparr>isVerified := True\<rparr>
        = surgePricings s' (requestToPricingId s' requestId)"
      by simp
    with True show ?thesis by (simp add: c exec_def eq)
  next
    case False
    then show ?thesis by (simp add: c exec_def eq)
  qed
qed

lemma verified_eq:
  "validatePricing fhe_example verifying 8 (Some [5, 200, 1000]) [1] = Inr verified"
  by (simp add: verified_def verifying_def priced_def paired_def tx_defs)

lemma verified_simps:
  "pricingCount verified = 1" "isVerified (surgePricings verified 1)"
  "requestToPricingId verified 8 = 1"
  by (simp_all add: verified_def verifying_def priced_def paired_def tx_defs)


lemma calculateSurgePricing_above:
  "demandCount s < demandId \<or> supplyCount s < supplyId \<Longrightarrow>
   calculateSurgePricing requestDecryption s demandId supplyId = Inl InvalidIDs"
  by (auto simp: calculateSurgePricing_def)

lemma verifyPricing_above:
  "pricingCount s < pricingId \<Longrightarrow>
   verifyPricing requestDecryption s pricingId = Inl InvalidPricingID"
  by (auto simp: verifyPricing_def)


subsection \<open>Correlation entries\<close>

text \<open>
  Claim C1, as the contract has it. No function of the contract ever deletes or resets
  a correlation entry. A callback whose request id has no entry (it maps to 0) reverts
  with "Invalid request" and changes nothing. A successful \<open>computePricing\<close> or
  \<open>validatePricing\<close> leaves the three correlation maps as they were, so the same
  callback delivered again passes the request-id check again: the replayed
  \<open>computePricing\<close> creates one more pricing record (unless \<open>pricingCount\<close> is
  saturated), the replayed \<open>validatePricing\<close> succeeds again and leaves the pricing
  records as they are.
\<close>

theorem callbacks_keep_handle:
  "(requestToDemandId s requestId = 0 \<or> requestToSupplyId s requestId = 0 \<longrightarrow>
      computePricing fhe s requestId cleartexts proof = Inl InvalidRequest
      \<and> exec fhe s (ComputePricing requestId cleartexts proof) = s)
   \<and> (requestToPricingId s requestId = 0 \<longrightarrow>
      validatePricing fhe s requestId cleartexts proof = Inl InvalidRequest
      \<and> exec fhe s (ValidatePricing requestId cleartexts proof) = s
      \<and> decryptMultiplier fhe s requestId cleartext proof = Inl InvalidRequest
      \<and> exec fhe s (DecryptMultiplier requestId cleartext proof) = s)
   \<and> (computePricing fhe s requestId cleartexts proof = Inr s' \<longrightarrow>
      requestToDemandId s' = requestToDemandId s
      \<and> requestToSupplyId s' = requestToSupplyId s
      \<and> requestToPricingId s' = requestToPricingId s
      \<and> computePricing fhe s' requestId cleartexts proof
          = (if pricingCount s' = - 1 then Inl PanicOverflow
             else Inr (exec fhe s' (ComputePricing requestId cleartexts proof)))
      \<and> pricingCount (exec fhe s' (ComputePricing requestId cleartexts proof))
          = (if pricingCount s' = - 1 then pricingCount s' else pricingCount s' + 1))
   \<and> (validatePricing fhe s requestId cleartexts proof = Inr s' \<longrightarrow>
      requestToDemandId s' = requestToDemandId s
      \<and> requestToSupplyId s' = requestToSupplyId s
      \<and> requestToPricingId s' = requestToPricingId s
      \<and> validatePricing fhe s' requestId cleartexts proof
          = Inr (exec fhe s' (ValidatePricing requestId cleartexts proof))
      \<and> surgePricings (exec fhe s' (ValidatePricing requestId cleartexts proof))
          = surgePricings s')"
proof (intro conjI impI)
  assume "requestToDemandId s requestId = 0 \<or> requestToSupplyId s requestId = 0"
  then show "computePricing fhe s requestId cleartexts proof = Inl InvalidRequest"
    by (auto simp: computePricing_def)
  then show "exec fhe s (ComputePricing requestId cleartexts proof) = s"
    by (simp add: exec_def)
next
  assume z: "requestToPricingId s requestId = 0"
  then show v: "validatePricing fhe s requestId cleartexts proof = Inl InvalidRequest"
    by (simp add: validatePricing_def)
  from z show d: "decryptMultiplier fhe s requestId cleartext proof = Inl InvalidRequest"
    by (simp add: decryptMultiplier_def)
  from v show "exec fhe s (ValidatePricing requestId cleartexts proof) = s"
    by (simp add: exec_def)
  from d show "exec fhe s (DecryptMultiplier requestId cleartext proof) = s"
    by (simp add: exec_def)
next
  assume ok: "computePricing fhe s requestId cleartexts proof = Inr s'"
  show "requestToDemandId s' = requestToDemandId s"
    and "requestToSupplyId s' = requestToSupplyId s"
    and "requestToPricingId s' = requestToPricingId s"
    and "computePricing fhe s' requestId cleartexts proof
          = (if pricingCount s' = - 1 then Inl PanicOverflow
             else Inr (exec fhe s' (ComputePricing requestId cleartexts proof)))"
    and "pricingCount (exec fhe s' (ComputePricing requestId cleartexts proof))
          = (if pricingCount s' = - 1 then pricingCount s' else pricingCount s' + 1)"
    by (rule computePricing_again [OF ok])+
next
  assume ok: "validatePricing fhe s requestId cleartexts proof = Inr s'"
  show "requestToDemandId s' = requestToDemandId s"
    and "requestToSupplyId s' = requestToSupplyId s"
    and "requestToPricingId s' = requestToPricingId s"
    and "validatePricing fhe s' requestId cleartexts proof
          = Inr (exec fhe s' (ValidatePricing requestId cleartexts proof))"
    and "surgePricings (exec fhe s' (ValidatePricing requestId cleartexts proof))
          = surgePricings s'"
    by (rule validatePricing_again [OF ok])+
qed

theorem callbacks_keep_handle_witness:
  "computePricing fhe_example deployed 7 (Some [5, 180, 5, 100]) [1] = Inl InvalidRequest
   \<and> validatePricing fhe_example deployed 7 (Some [5, 180, 5, 100]) [1] = Inl InvalidRequest
   \<and> decryptMultiplier fhe_example deployed 7 (Some 200) [1] = Inl InvalidRequest
   \<and> computePricing fhe_example paired 7 (Some [5, 180, 5, 100]) [1] = Inr priced
   \<and> requestToDemandId priced 7 = 1
   \<and> pricingCount (exec fhe_example priced (ComputePricing 7 (Some [5, 180, 5, 100]) [1])) = 2
   \<and> validatePricing fhe_example verifying 8 (Some [5, 200, 1000]) [1] = Inr verified
   \<and> requestToPricingId verified 8 = 1
   \<and> validatePricing fhe_example verified 8 (Some [5, 200, 1000]) [1]
       = Inr (exec fhe_example verified (ValidatePricing 8 (Some [5, 200, 1000]) [1]))"
proof -
  have z: "requestToDemandId deployed 7 = 0" "requestToPricingId deployed 7 = 0"
    by (simp_all add: deployed_def)
  from callbacks_keep_handle [of deployed 7 fhe_example "Some [5, 180, 5, 100]" "[1]" "Some 200"] z
  have a: "computePricing fhe_example deployed 7 (Some [5, 180, 5, 100]) [1] = Inl InvalidRequest"
    and b: "validatePricing fhe_example deployed 7 (Some [5, 180, 5, 100]) [1] = Inl InvalidRequest"
    and c: "decryptMultiplier fhe_example deployed 7 (Some 200) [1] = Inl InvalidRequest"
    by simp_all
  from callbacks_keep_handle [of paired 7 fhe_example "Some [5, 180, 5, 100]" "[1]" _ priced] priced_eq
  have d: "requestToDemandId priced = requestToDemandId paired"
    and e: "pricingCount (exec fhe_example priced (ComputePricing 7 (Some [5, 180, 5, 100]) [1]))
          = (if pricingCount priced = - 1 then pricingCount priced else pricingCount priced + 1)"
    by simp_all
  from callbacks_keep_handle [of verifying 8 fhe_example "Some [5, 200, 1000]" "[1]" _ verified] verified_eq
  have f: "requestToPricingId verified = requestToPricingId verifying"
    and g: "validatePricing fhe_example verified 8 (Some [5, 200, 1000]) [1]
       = Inr (exec fhe_example verified (ValidatePricing 8 (Some [5, 200, 1000]) [1]))"
    by simp_all
  from a b c d e g show ?thesis
    by (simp add: priced_eq verified_eq paired_simps priced_simps verified_simps)
qed


text \<open>
  Claim C1 as stated fails: request 7 is resolved by a first \<open>computePricing\<close>, its
  entry is still there afterwards, and the same callback delivered a second time is not
  rejected but creates pricing record 2.
\<close>

theorem replayed_pairing_counterexample:
  "computePricing fhe_example paired 7 (Some [5, 180, 5, 100]) [1] = Inr priced
   \<and> requestToDemandId priced 7 = 1
   \<and> requestToSupplyId priced 7 = 1
   \<and> computePricing fhe_example priced 7 (Some [5, 180, 5, 100]) [1]
       = Inr (exec fhe_example priced (ComputePricing 7 (Some [5, 180, 5, 100]) [1]))
   \<and> pricingCount priced = 1
   \<and> pricingCount (exec fhe_example priced (ComputePricing 7 (Some [5, 180, 5, 100]) [1])) = 2
   \<and> events (exec fhe_example priced (ComputePricing 7 (Some [5, 180, 5, 100]) [1]))
       = [DemandRecorded 1, SupplyRecorded 1, PricingCalculated 1, PricingCalculated 2]"
  by (simp add: priced_def paired_def tx_defs)


text \<open>
  Claim C6, as the contract has it. When \<open>FHE.checkSignatures\<close> fails in a callback
  whose request id is known, the transaction reverts with the signature error, so
  storage, and with it the correlation entry, is exactly what it was: the entry is not
  consumed.
\<close>

theorem bad_proof_keeps_handle:
  "(\<not> checkSignatures fhe requestId cleartexts proof \<longrightarrow>
      computePricing fhe s requestId cleartexts proof
        = Inl (if requestToDemandId s requestId \<noteq> 0 \<and> requestToSupplyId s requestId \<noteq> 0
               then InvalidSignatures else InvalidRequest)
      \<and> exec fhe s (ComputePricing requestId cleartexts proof) = s
      \<and> validatePricing fhe s requestId cleartexts proof
        = Inl (if requestToPricingId s requestId \<noteq> 0 then InvalidSignatures else InvalidRequest)
      \<and> exec fhe s (ValidatePricing requestId cleartexts proof) = s)
   \<and> (\<not> checkSignatures fhe requestId (map_option (\<lambda>m. [m]) cleartext) proof \<longrightarrow>
      decryptMultiplier fhe s requestId cleartext proof
        = Inl (if requestToPricingId s requestId \<noteq> 0 then InvalidSignatures else InvalidRequest)
      \<and> exec fhe s (DecryptMultiplier requestId cleartext proof) = s)"
  by (simp add: computePricing_def validatePricing_def decryptMultiplier_def exec_def Let_def)

theorem bad_proof_keeps_handle_witness:
  "\<not> checkSignatures fhe_example 7 (Some [5, 180, 5, 100]) [0]
   \<and> computePricing fhe_example paired 7 (Some [5, 180, 5, 100]) [0] = Inl InvalidSignatures
   \<and> exec fhe_example paired (ComputePricing 7 (Some [5, 180, 5, 100]) [0]) = paired
   \<and> validatePricing fhe_example verifying 8 (Some [5, 200, 1000]) [0] = Inl InvalidSignatures
   \<and> exec fhe_example verifying (ValidatePricing 8 (Some [5, 200, 1000]) [0]) = verifying
   \<and> decryptMultiplier fhe_example verifying 8 (Some 200) [0] = Inl InvalidSignatures
   \<and> exec fhe_example verifying (DecryptMultiplier 8 (Some 200) [0]) = verifying"
proof -
  have h: "\<not> checkSignatures fhe_example 7 (Some [5, 180, 5, 100]) [0]"
    "\<not> checkSignatures fhe_example 8 (Some [5, 200, 1000]) [0]"
    "\<not> checkSignatures fhe_example 8 (map_option (\<lambda>m. [m]) (Some 200)) [0]"
    by (simp_all add: fhe_example_def)
  have r: "requestToPricingId verifying 8 = 1"
    by (simp add: verifying_def priced_def paired_def tx_defs)
  from bad_proof_keeps_handle [of fhe_example 7 "Some [5, 180, 5, 100]" "[0]" paired] h(1)
  have a: "computePricing fhe_example paired 7 (Some [5, 180, 5, 100]) [0] = Inl InvalidSignatures"
    "exec fhe_example paired (ComputePricing 7 (Some [5, 180, 5, 100]) [0]) = paired"
    by (simp_all add: paired_simps)
  from bad_proof_keeps_handle [of fhe_example 8 "Some [5, 200, 1000]" "[0]" verifying "Some 200"] h(2,3)
  have b: "validatePricing fhe_example verifying 8 (Some [5, 200, 1000]) [0] = Inl InvalidSignatures"
    "exec fhe_example verifying (ValidatePricing 8 (Some [5, 200, 1000]) [0]) = verifying"
    "decryptMultiplier fhe_example verifying 8 (Some 200) [0] = Inl InvalidSignatures"
    "exec fhe_example verifying (DecryptMultiplier 8 (Some 200) [0]) = verifying"
    by (simp_all add: r)
  from h(1) a b show ?thesis by simp
qed

text \<open>
  Claim C6 as stated fails: after a callback for request 7 with a proof that does not
  check, the entry for 7 is still registered, and the callback delivered again with
  another proof is processed and creates the pricing record.
\<close>

theorem retried_proof_counterexample:
  "computePricing fhe_example paired 7 (Some [5, 180, 5, 100]) [0] = Inl InvalidSignatures
   \<and> requestToDemandId (exec fhe_example paired (ComputePricing 7 (Some [5, 180, 5, 100]) [0])) 7 = 1
   \<and> requestToSupplyId (exec fhe_example paired (ComputePricing 7 (Some [5, 180, 5, 100]) [0])) 7 = 1
   \<and> computePricing fhe_example
        (exec fhe_example paired (ComputePricing 7 (Some [5, 180, 5, 100]) [0]))
        7 (Some [5, 180, 5, 100]) [1] = Inr priced"
  by (simp add: priced_def paired_def tx_defs)

subsection \<open>Requests for ids that were never allocated\<close>

text \<open>
  Claim C7. Ids are allocated from 1, but the guards of \<open>calculateSurgePricing\<close> and
  \<open>verifyPricing\<close> only compare with the counter from above, so id 0 passes them,
  although the callbacks of the same contract read id 0 as "no record". With one demand
  and one supply recorded, \<open>calculateSurgePricing(0, 1)\<close> therefore never fails with
  "Invalid IDs", whatever \<open>FHE.requestDecryption\<close> does with the zero handles of the
  never-written demand 0: the contract hands the decision to the library. When the
  library call reverts, the transaction reverts with the library's error and storage is
  unchanged. The same holds for \<open>verifyPricing(0)\<close> on the freshly deployed contract,
  which has no pricing record at all.
\<close>

theorem request_guard_misses_id_zero:
  "demandCount paired = 1 \<and> supplyCount paired = 1
   \<and> calculateSurgePricing requestDecryption paired 0 1 \<noteq> Inl InvalidIDs
   \<and> calculateSurgePricing None paired 0 1 = Inl RequestDecryptionReverted
   \<and> exec fhe_example paired (CalculateSurgePricing None 0 1) = paired
   \<and> pricingCount deployed = 0
   \<and> verifyPricing requestDecryption deployed 0 \<noteq> Inl InvalidPricingID
   \<and> verifyPricing None deployed 0 = Inl RequestDecryptionReverted
   \<and> exec fhe_example deployed (VerifyPricing None 0) = deployed"
proof -
  have "calculateSurgePricing requestDecryption paired 0 1 \<noteq> Inl InvalidIDs"
    by (simp add: calculateSurgePricing_def paired_simps Let_def split: option.split)
  moreover have "verifyPricing requestDecryption deployed 0 \<noteq> Inl InvalidPricingID"
    by (simp add: verifyPricing_def Let_def split: option.split)
  moreover have "calculateSurgePricing None paired 0 1 = Inl RequestDecryptionReverted"
    by (simp add: calculateSurgePricing_def paired_simps Let_def)
  moreover have "verifyPricing None deployed 0 = Inl RequestDecryptionReverted"
    by (simp add: verifyPricing_def Let_def)
  moreover have "pricingCount deployed = 0"
    by (simp add: deployed_def)
  ultimately show ?thesis
    by (simp add: exec_def paired_simps)
qed

subsection \<open>The effect of one transaction\<close>

lemma exec_RecordDemand:
  "exec fhe s (RecordDemand block_timestamp zoneId requestCount) =
     (if demandCount s = - 1 then s
      else s\<lparr>demandCount := demandCount s + 1,
             rideDemands := (rideDemands s)(demandCount s + 1 :=
               \<lparr>demand_encryptedZoneId = zoneId,
                demand_encryptedRequestCount = requestCount,
                demand_encryptedTimestamp = asEuint32 fhe (ucast block_timestamp)\<rparr>),
             events := events s @ [DemandRecorded (demandCount s + 1)]\<rparr>)"
  by (simp add: exec_def recordDemand_def Let_def)

lemma exec_RecordSupply:
  "exec fhe s (RecordSupply block_timestamp zoneId availableDrivers) =
     (if supplyCount s = - 1 then s
      else s\<lparr>supplyCount := supplyCount s + 1,
             driverSupplies := (driverSupplies s)(supplyCount s + 1 :=
               \<lparr>supply_encryptedZoneId = zoneId,
                supply_encryptedAvailableDrivers = availableDrivers,
                supply_encryptedTimestamp = asEuint32 fhe (ucast block_timestamp)\<rparr>),
             events := events s @ [SupplyRecorded (supplyCount s + 1)]\<rparr>)"
  by (simp add: exec_def recordSupply_def Let_def)

lemma exec_CalculateSurgePricing:
  "exec fhe s (CalculateSurgePricing requestDecryption demandId supplyId) =
     (case requestDecryption of
        None \<Rightarrow> s
      | Some reqId \<Rightarrow>
          if \<not> (demandId \<le> demandCount s \<and> supplyId \<le> supplyCount s) then s
          else s\<lparr>decryptionRequests := decryptionRequests s @
                   [(reqId,
                     [toBytes32 (demand_encryptedZoneId (rideDemands s demandId)),
                      toBytes32 (demand_encryptedRequestCount (rideDemands s demandId)),
                      toBytes32 (supply_encryptedZoneId (driverSupplies s supplyId)),
                      toBytes32 (supply_encryptedAvailableDrivers (driverSupplies s supplyId))],
                     Sel_computePricing)],
                 requestToDemandId := (requestToDemandId s)(reqId := demandId),
                 requestToSupplyId := (requestToSupplyId s)(reqId := supplyId)\<rparr>)"
  by (simp add: exec_def calculateSurgePricing_def Let_def split: option.split)

lemma exec_VerifyPricing:
  "exec fhe s (VerifyPricing requestDecryption pricingId) =
     (case requestDecryption of
        None \<Rightarrow> s
      | Some reqId \<Rightarrow>
          if \<not> pricingId \<le> pricingCount s then s
          else s\<lparr>decryptionRequests := decryptionRequests s @
                   [(reqId,
                     [toBytes32 (encryptedZoneId (surgePricings s pricingId)),
                      toBytes32 (encryptedMultiplier (surgePricings s pricingId)),
                      toBytes32 (encryptedBasePrice (surgePricings s pricingId))],
                     Sel_validatePricing)],
                 requestToPricingId := (requestToPricingId s)(reqId := pricingId)\<rparr>)"
  by (simp add: exec_def verifyPricing_def Let_def split: option.split)

lemma exec_RequestPricingProof:
  "exec fhe s (RequestPricingProof requestDecryption pricingId) =
     (case requestDecryption of
        None \<Rightarrow> s
      | Some reqId \<Rightarrow>
          if \<not> pricingId \<le> pricingCount s \<or> \<not> isVerified (surgePricings s pricingId) then s
          else s\<lparr>decryptionRequests := decryptionRequests s @
                   [(reqId, [toBytes32 (encryptedMultiplier (surgePricings s pricingId))],
                     Sel_decryptMultiplier)],
                 requestToPricingId := (requestToPricingId s)(reqId := pricingId)\<rparr>)"
  by (simp add: exec_def requestPricingProof_def Let_def split: option.split)

lemma exec_DecryptMultiplier:
  "exec fhe s (DecryptMultiplier requestId cleartexts proof) = s"
  by (simp add: exec_def decryptMultiplier_def Let_def split: option.split)

lemma exec_ComputePricing:
  "exec fhe s (ComputePricing requestId cleartexts proof) = s \<or>
     pricingCount s \<noteq> - 1 \<and> (\<exists>z m. exec fhe s (ComputePricing requestId cleartexts proof) =
       s\<lparr>pricingCount := pricingCount s + 1,
         surgePricings := (surgePricings s)(pricingCount s + 1 :=
           \<lparr>encryptedZoneId = z, encryptedMultiplier = m,
            encryptedBasePrice = asEuint32 fhe 1000, isVerified = False\<rparr>),
         events := events s @ [PricingCalculated (pricingCount s + 1)]\<rparr>)"
proof (cases "computePricing fhe s requestId cleartexts proof")
  case (Inl e)
  then show ?thesis by (simp add: exec_def)
next
  case (Inr s')
  from computePricing_Inr [OF Inr] Inr show ?thesis
    by (simp add: exec_def) blast
qed

lemma exec_ValidatePricing:
  "exec fhe s (ValidatePricing requestId cleartexts proof) = s \<or>
     exec fhe s (ValidatePricing requestId cleartexts proof) =
       s\<lparr>surgePricings := (surgePricings s)(requestToPricingId s requestId :=
            (surgePricings s (requestToPricingId s requestId))\<lparr>isVerified := True\<rparr>),
         events := events s @ [PricingVerified (requestToPricingId s requestId)]\<rparr>"
proof (cases "validatePricing fhe s requestId cleartexts proof")
  case (Inl e)
  then show ?thesis by (simp add: exec_def)
next
  case (Inr s')
  from validatePricing_Inr [OF Inr] Inr show ?thesis
    by (simp add: exec_def) blast
qed

subsection \<open>Verification is monotone\<close>

lemma allocated_deployed: "pricing_ids_allocated deployed"
  by (simp add: pricing_ids_allocated_def deployed_def zeroPricing_def)

lemma incr_le: "x \<noteq> - 1 \<Longrightarrow> y \<le> x \<Longrightarrow> y \<le> x + 1"
  for x :: "'a::len word"
  by (metis incr_not_le linear order_trans)

lemma allocated_exec:
  assumes inv: "pricing_ids_allocated s"
  shows "pricing_ids_allocated (exec fhe s t)"
proof (cases t)
  case (RecordDemand ts z c)
  with inv show ?thesis by (simp add: exec_RecordDemand pricing_ids_allocated_def)
next
  case (RecordSupply ts z c)
  with inv show ?thesis by (simp add: exec_RecordSupply pricing_ids_allocated_def)
next
  case (CalculateSurgePricing r d u)
  with inv show ?thesis by (simp add: exec_CalculateSurgePricing pricing_ids_allocated_def split: option.split)
next
  case (ComputePricing r c p)
  from exec_ComputePricing [of fhe s r c p] inv show ?thesis
    unfolding ComputePricing pricing_ids_allocated_def
    by (auto simp: incr_le split: if_splits)
next
  case (VerifyPricing r p)
  with inv show ?thesis by (simp add: exec_VerifyPricing pricing_ids_allocated_def split: option.split)
next
  case (ValidatePricing r c p)
  from exec_ValidatePricing [of fhe s r c p] inv show ?thesis
    unfolding ValidatePricing pricing_ids_allocated_def
    by (auto split: if_splits)
next
  case (RequestPricingProof r p)
  with inv show ?thesis by (simp add: exec_RequestPricingProof pricing_ids_allocated_def split: option.split)
next
  case (DecryptMultiplier r c p)
  with inv show ?thesis by (simp add: exec_DecryptMultiplier)
qed

lemma verified_exec:
  assumes inv: "pricing_ids_allocated s" and v: "isVerified (surgePricings s pricingId)"
  shows "isVerified (surgePricings (exec fhe s t) pricingId)"
proof (cases t)
  case (RecordDemand ts z c)
  with v show ?thesis by (simp add: exec_RecordDemand)
next
  case (RecordSupply ts z c)
  with v show ?thesis by (simp add: exec_RecordSupply)
next
  case (CalculateSurgePricing r d u)
  with v show ?thesis by (simp add: exec_CalculateSurgePricing split: option.split)
next
  case (ComputePricing r c p)
  from inv v have "pricingId \<le> pricingCount s"
    by (simp add: pricing_ids_allocated_def)
  with exec_ComputePricing [of fhe s r c p] v show ?thesis
    unfolding ComputePricing
    by (auto dest: le_neq_incr)
next
  case (VerifyPricing r p)
  with v show ?thesis by (simp add: exec_VerifyPricing split: option.split)
next
  case (ValidatePricing r c p)
  from exec_ValidatePricing [of fhe s r c p] v show ?thesis
    unfolding ValidatePricing by auto
next
  case (RequestPricingProof r p)
  with v show ?thesis by (simp add: exec_RequestPricingProof split: option.split)
next
  case (DecryptMultiplier r c p)
  with v show ?thesis by (simp add: exec_DecryptMultiplier)
qed

lemma run_Cons: "run fhe s (t # ts) = run fhe (exec fhe s t) ts"
  by (simp add: run_def)

lemma run_Nil: "run fhe s [] = s"
  by (simp add: run_def)

lemma run_append: "run fhe s (ts @ later) = run fhe (run fhe s ts) later"
  by (simp add: run_def)

lemma allocated_run:
  "pricing_ids_allocated s \<Longrightarrow> pricing_ids_allocated (run fhe s ts)"
  by (induction ts arbitrary: s) (simp_all add: run_Nil run_Cons allocated_exec)

lemma verified_run:
  "pricing_ids_allocated s \<Longrightarrow> isVerified (surgePricings s pricingId) \<Longrightarrow>
   isVerified (surgePricings (run fhe s ts) pricingId)"
  by (induction ts arbitrary: s) (simp_all add: run_Nil run_Cons allocated_exec verified_exec)

text \<open>
  Claim C4. A pricing record is created with \<open>isVerified = False\<close>. In every state
  the contract can reach from deployment by any sequence \<open>ts\<close> of transactions, a
  pricing id that is verified stays verified after any further sequence \<open>later\<close> of
  transactions, whatever their order and arguments: the flag only ever goes from false
  to true.
\<close>

theorem verified_is_monotone:
  "(computePricing fhe s requestId cleartexts proof = Inr s' \<longrightarrow>
      \<not> isVerified (surgePricings s' (pricingCount s')))
   \<and> (isVerified (surgePricings (run fhe deployed ts) pricingId) \<longrightarrow>
      isVerified (surgePricings (run fhe deployed (ts @ later)) pricingId))"
proof (intro conjI impI)
  assume ok: "computePricing fhe s requestId cleartexts proof = Inr s'"
  from computePricing_Inr [OF ok] show "\<not> isVerified (surgePricings s' (pricingCount s'))"
    by auto
next
  assume "isVerified (surgePricings (run fhe deployed ts) pricingId)"
  with allocated_run [OF allocated_deployed, of fhe ts]
  show "isVerified (surgePricings (run fhe deployed (ts @ later)) pricingId)"
    by (simp add: run_append verified_run)
qed

theorem verified_is_monotone_witness:
  "computePricing fhe_example paired 7 (Some [5, 180, 5, 100]) [1] = Inr priced
   \<and> \<not> isVerified (surgePricings priced 1)
   \<and> isVerified (surgePricings (run fhe_example deployed
        [RecordDemand 1700000000 11 12, RecordSupply 1700000000 11 13,
         CalculateSurgePricing (Some 7) 1 1, ComputePricing 7 (Some [5, 180, 5, 100]) [1],
         VerifyPricing (Some 8) 1, ValidatePricing 8 (Some [5, 200, 1000]) [1]]) 1)
   \<and> isVerified (surgePricings (run fhe_example deployed
        ([RecordDemand 1700000000 11 12, RecordSupply 1700000000 11 13,
          CalculateSurgePricing (Some 7) 1 1, ComputePricing 7 (Some [5, 180, 5, 100]) [1],
          VerifyPricing (Some 8) 1, ValidatePricing 8 (Some [5, 200, 1000]) [1]]
         @ [ComputePricing 7 (Some [5, 180, 5, 100]) [1],
            ValidatePricing 8 (Some [5, 50, 0]) [1],
            VerifyPricing (Some 9) 1, ValidatePricing 9 (Some [5, 400, 1000]) [1]])) 1)"
proof -
  let ?ts = "[RecordDemand 1700000000 11 12, RecordSupply 1700000000 11 13,
         CalculateSurgePricing (Some 7) 1 1, ComputePricing 7 (Some [5, 180, 5, 100]) [1],
         VerifyPricing (Some 8) 1, ValidatePricing 8 (Some [5, 200, 1000]) [1]]"
  let ?later = "[ComputePricing 7 (Some [5, 180, 5, 100]) [1],
            ValidatePricing 8 (Some [5, 50, 0]) [1],
            VerifyPricing (Some 9) 1, ValidatePricing 9 (Some [5, 400, 1000]) [1]]"
  have h: "isVerified (surgePricings (run fhe_example deployed ?ts) 1)"
    by (simp add: tx_defs)
  from verified_is_monotone [of fhe_example paired 7 "Some [5, 180, 5, 100]" "[1]" priced] priced_eq
  have a: "\<not> isVerified (surgePricings priced (pricingCount priced))" by simp
  from verified_is_monotone [of fhe_example _ _ _ _ _ ?ts 1 ?later] h
  have b: "isVerified (surgePricings (run fhe_example deployed (?ts @ ?later)) 1)"
    by simp
  from a b h priced_eq show ?thesis by (simp add: priced_simps)
qed

subsection \<open>Ids are dense\<close>

lemma of_nat_inj_below:
  "x < 2 ^ LENGTH('a) \<Longrightarrow> y < 2 ^ LENGTH('a) \<Longrightarrow>
   (of_nat x :: 'a::len word) = of_nat y \<Longrightarrow> x = y"
proof -
  assume x: "x < 2 ^ LENGTH('a)" and y: "y < 2 ^ LENGTH('a)"
    and e: "(of_nat x :: 'a word) = of_nat y"
  from e have "unat (of_nat x :: 'a word) = unat (of_nat y :: 'a word)" by simp
  with x y show "x = y" by (simp add: unat_of_nat)
qed

lemma below_max: "unat x + 1 < 2 ^ LENGTH('a) \<Longrightarrow> x \<noteq> (- 1 :: 'a::len word)"
proof
  assume b: "unat x + 1 < 2 ^ LENGTH('a)" and "x = - 1"
  then have "unat x = 2 ^ LENGTH('a) - 1"
    by (simp add: unsigned_minus_1_eq_mask mask_eq_exp_minus_1)
  with b show False by simp
qed

lemma firstIds_Suc: "firstIds (Suc n) = firstIds n @ [of_nat (Suc n)]"
  by (simp add: firstIds_def)

lemma firstIds_incr:
  "c \<noteq> - 1 \<Longrightarrow> firstIds (unat (c + 1)) = firstIds (unat c) @ [c + 1]"
  for c :: uint256
  by (simp add: unat_incr firstIds_Suc)

lemma distinct_firstIds: "n < 2 ^ LENGTH(256) \<Longrightarrow> distinct (firstIds n)"
proof -
  assume n: "n < 2 ^ LENGTH(256)"
  have "inj_on (of_nat :: nat \<Rightarrow> uint256) (set [1..<Suc n])"
  proof (rule inj_onI)
    fix x y assume "x \<in> set [1..<Suc n]" "y \<in> set [1..<Suc n]"
      and e: "(of_nat x :: uint256) = of_nat y"
    then have "x \<le> n" "y \<le> n" by auto
    then have "x < 2 ^ LENGTH(256)" "y < 2 ^ LENGTH(256)"
      using n by (blast intro: le_less_trans)+
    then show "x = y" using e by (blast intro: of_nat_inj_below)
  qed
  then show ?thesis by (simp add: firstIds_def distinct_map)
qed

lemma distinct_firstIds_unat: "distinct (firstIds (unat (c :: uint256)))"
  by (rule distinct_firstIds) (rule unsigned_less)

lemma ids_snoc:
  "demandIds (es @ [e]) = demandIds es @ (case e of DemandRecorded i \<Rightarrow> [i] | _ \<Rightarrow> [])"
  "supplyIds (es @ [e]) = supplyIds es @ (case e of SupplyRecorded i \<Rightarrow> [i] | _ \<Rightarrow> [])"
  "pricingIds (es @ [e]) = pricingIds es @ (case e of PricingCalculated i \<Rightarrow> [i] | _ \<Rightarrow> [])"
  by (simp_all add: demandIds_def supplyIds_def pricingIds_def)

lemma dense_deployed: "ids_dense deployed"
  by (simp add: ids_dense_def deployed_def demandIds_def supplyIds_def pricingIds_def firstIds_def)

lemma dense_exec:
  assumes inv: "ids_dense s"
  shows "ids_dense (exec fhe s t)"
proof (cases t)
  case (RecordDemand ts z c)
  with inv show ?thesis
    by (simp add: exec_RecordDemand ids_dense_def ids_snoc firstIds_incr)
next
  case (RecordSupply ts z c)
  with inv show ?thesis
    by (simp add: exec_RecordSupply ids_dense_def ids_snoc firstIds_incr)
next
  case (CalculateSurgePricing r d u)
  with inv show ?thesis by (simp add: exec_CalculateSurgePricing ids_dense_def split: option.split)
next
  case (ComputePricing r c p)
  from exec_ComputePricing [of fhe s r c p] inv show ?thesis
    unfolding ComputePricing ids_dense_def
    by (auto simp: ids_snoc firstIds_incr)
next
  case (VerifyPricing r p)
  with inv show ?thesis by (simp add: exec_VerifyPricing ids_dense_def split: option.split)
next
  case (ValidatePricing r c p)
  from exec_ValidatePricing [of fhe s r c p] inv show ?thesis
    unfolding ValidatePricing ids_dense_def
    by (auto simp: ids_snoc)
next
  case (RequestPricingProof r p)
  with inv show ?thesis by (simp add: exec_RequestPricingProof ids_dense_def split: option.split)
next
  case (DecryptMultiplier r c p)
  with inv show ?thesis by (simp add: exec_DecryptMultiplier)
qed

lemma dense_run: "ids_dense s \<Longrightarrow> ids_dense (run fhe s ts)"
  by (induction ts arbitrary: s) (simp_all add: run_Nil run_Cons dense_exec)

lemma demandCount_exec:
  "demandCount (exec fhe s t) =
     (if isRecordDemand t \<and> demandCount s \<noteq> - 1 then demandCount s + 1 else demandCount s)"
proof (cases t)
  case (ComputePricing r c p)
  from exec_ComputePricing [of fhe s r c p] show ?thesis
    unfolding ComputePricing by (auto simp: isRecordDemand_def)
next
  case (ValidatePricing r c p)
  from exec_ValidatePricing [of fhe s r c p] show ?thesis
    unfolding ValidatePricing by (auto simp: isRecordDemand_def)
qed (simp_all add: isRecordDemand_def exec_RecordDemand exec_RecordSupply
      exec_CalculateSurgePricing exec_VerifyPricing exec_RequestPricingProof
      exec_DecryptMultiplier split: option.split)

lemma supplyCount_exec:
  "supplyCount (exec fhe s t) =
     (if isRecordSupply t \<and> supplyCount s \<noteq> - 1 then supplyCount s + 1 else supplyCount s)"
proof (cases t)
  case (ComputePricing r c p)
  from exec_ComputePricing [of fhe s r c p] show ?thesis
    unfolding ComputePricing by (auto simp: isRecordSupply_def)
next
  case (ValidatePricing r c p)
  from exec_ValidatePricing [of fhe s r c p] show ?thesis
    unfolding ValidatePricing by (auto simp: isRecordSupply_def)
qed (simp_all add: isRecordSupply_def exec_RecordDemand exec_RecordSupply
      exec_CalculateSurgePricing exec_VerifyPricing exec_RequestPricingProof
      exec_DecryptMultiplier split: option.split)

lemma demandCount_run:
  "unat (demandCount s) + length (filter isRecordDemand ts) < 2 ^ LENGTH(256) \<Longrightarrow>
   unat (demandCount (run fhe s ts)) = unat (demandCount s) + length (filter isRecordDemand ts)"
proof (induction ts arbitrary: s)
  case Nil
  then show ?case by (simp add: run_Nil)
next
  case (Cons t ts)
  show ?case
  proof (cases "isRecordDemand t")
    case True
    with Cons.prems have b: "unat (demandCount s) + 1 < 2 ^ LENGTH(256)" by simp
    then have n: "demandCount s \<noteq> - 1" by (rule below_max)
    with True have e: "demandCount (exec fhe s t) = demandCount s + 1"
      by (simp add: demandCount_exec)
    from n have u: "unat (demandCount s + 1) = Suc (unat (demandCount s))" by (rule unat_incr)
    from Cons.prems True e u
    have "unat (demandCount (exec fhe s t)) + length (filter isRecordDemand ts) < 2 ^ LENGTH(256)"
      by simp
    from Cons.IH [OF this] True e u show ?thesis by (simp add: run_Cons)
  next
    case False
    then have e: "demandCount (exec fhe s t) = demandCount s" by (simp add: demandCount_exec)
    with Cons.prems False
    have "unat (demandCount (exec fhe s t)) + length (filter isRecordDemand ts) < 2 ^ LENGTH(256)"
      by simp
    from Cons.IH [OF this] False e show ?thesis by (simp add: run_Cons)
  qed
qed

lemma supplyCount_run:
  "unat (supplyCount s) + length (filter isRecordSupply ts) < 2 ^ LENGTH(256) \<Longrightarrow>
   unat (supplyCount (run fhe s ts)) = unat (supplyCount s) + length (filter isRecordSupply ts)"
proof (induction ts arbitrary: s)
  case Nil
  then show ?case by (simp add: run_Nil)
next
  case (Cons t ts)
  show ?case
  proof (cases "isRecordSupply t")
    case True
    with Cons.prems have b: "unat (supplyCount s) + 1 < 2 ^ LENGTH(256)" by simp
    then have n: "supplyCount s \<noteq> - 1" by (rule below_max)
    with True have e: "supplyCount (exec fhe s t) = supplyCount s + 1"
      by (simp add: supplyCount_exec)
    from n have u: "unat (supplyCount s + 1) = Suc (unat (supplyCount s))" by (rule unat_incr)
    from Cons.prems True e u
    have "unat (supplyCount (exec fhe s t)) + length (filter isRecordSupply ts) < 2 ^ LENGTH(256)"
      by simp
    from Cons.IH [OF this] True e u show ?thesis by (simp add: run_Cons)
  next
    case False
    then have e: "supplyCount (exec fhe s t) = supplyCount s" by (simp add: supplyCount_exec)
    with Cons.prems False
    have "unat (supplyCount (exec fhe s t)) + length (filter isRecordSupply ts) < 2 ^ LENGTH(256)"
      by simp
    from Cons.IH [OF this] False e show ?thesis by (simp add: run_Cons)
  qed
qed

lemma pricingCount_exec:
  "unat (pricingCount (exec fhe s t)) =
     unat (pricingCount s) +
       (if isComputePricing t then (case call fhe s t of Inl e \<Rightarrow> 0 | Inr s' \<Rightarrow> 1) else 0)"
proof (cases t)
  case (ComputePricing r c p)
  show ?thesis
  proof (cases "computePricing fhe s r c p")
    case (Inl e)
    with ComputePricing show ?thesis by (simp add: exec_def isComputePricing_def)
  next
    case (Inr s')
    from computePricing_Inr [OF Inr] have n: "pricingCount s \<noteq> - 1"
      and c: "pricingCount s' = pricingCount s + 1" by auto
    from n c Inr ComputePricing show ?thesis
      by (simp add: exec_def isComputePricing_def unat_incr)
  qed
next
  case (ValidatePricing r c p)
  from exec_ValidatePricing [of fhe s r c p] show ?thesis
    unfolding ValidatePricing by (auto simp: isComputePricing_def)
qed (simp_all add: isComputePricing_def exec_RecordDemand exec_RecordSupply
      exec_CalculateSurgePricing exec_VerifyPricing exec_RequestPricingProof
      exec_DecryptMultiplier split: option.split)

lemma demandCount_exec_unat:
  "unat (demandCount (exec fhe s t)) =
     unat (demandCount s) +
       (if isRecordDemand t then (case call fhe s t of Inl e \<Rightarrow> 0 | Inr s' \<Rightarrow> 1) else 0)"
proof (cases t)
  case (RecordDemand b z c)
  then show ?thesis
    by (simp add: exec_def isRecordDemand_def recordDemand_def Let_def unat_incr)
next
  case (ComputePricing r c p)
  from exec_ComputePricing [of fhe s r c p] show ?thesis
    unfolding ComputePricing by (auto simp: isRecordDemand_def)
next
  case (ValidatePricing r c p)
  from exec_ValidatePricing [of fhe s r c p] show ?thesis
    unfolding ValidatePricing by (auto simp: isRecordDemand_def)
qed (simp_all add: isRecordDemand_def exec_RecordSupply
      exec_CalculateSurgePricing exec_VerifyPricing exec_RequestPricingProof
      exec_DecryptMultiplier split: option.split)

lemma supplyCount_exec_unat:
  "unat (supplyCount (exec fhe s t)) =
     unat (supplyCount s) +
       (if isRecordSupply t then (case call fhe s t of Inl e \<Rightarrow> 0 | Inr s' \<Rightarrow> 1) else 0)"
proof (cases t)
  case (RecordSupply b z c)
  then show ?thesis
    by (simp add: exec_def isRecordSupply_def recordSupply_def Let_def unat_incr)
next
  case (ComputePricing r c p)
  from exec_ComputePricing [of fhe s r c p] show ?thesis
    unfolding ComputePricing by (auto simp: isRecordSupply_def)
next
  case (ValidatePricing r c p)
  from exec_ValidatePricing [of fhe s r c p] show ?thesis
    unfolding ValidatePricing by (auto simp: isRecordSupply_def)
qed (simp_all add: isRecordSupply_def exec_RecordDemand
      exec_CalculateSurgePricing exec_VerifyPricing exec_RequestPricingProof
      exec_DecryptMultiplier split: option.split)

lemma pricingCount_successes:
  "unat (pricingCount (run fhe s ts)) = unat (pricingCount s) + successes isComputePricing fhe s ts"
  by (induction ts arbitrary: s) (simp_all add: run_Nil run_Cons pricingCount_exec)

lemma demandCount_successes:
  "unat (demandCount (run fhe s ts)) = unat (demandCount s) + successes isRecordDemand fhe s ts"
  by (induction ts arbitrary: s) (simp_all add: run_Nil run_Cons demandCount_exec_unat)

lemma supplyCount_successes:
  "unat (supplyCount (run fhe s ts)) = unat (supplyCount s) + successes isRecordSupply fhe s ts"
  by (induction ts arbitrary: s) (simp_all add: run_Nil run_Cons supplyCount_exec_unat)

text \<open>
  Claim C9. After any sequence of transactions from deployment, the demand ids
  allocated so far, in allocation order, are exactly \<open>1, 2, \<dots>, N\<close>, where \<open>N\<close> is the
  number of \<open>recordDemand\<close> calls of the history that succeeded; likewise the supply
  ids for the successful \<open>recordSupply\<close> calls and the pricing ids for the successful
  \<open>computePricing\<close> callbacks, each kind on its own counter, which equals \<open>N\<close>. No
  id occurs twice. A history with fewer than \<open>2 ^ 256\<close> calls of \<open>recordDemand\<close> has
  all of them succeed: \<open>N\<close> calls allocate exactly the demand ids \<open>1, \<dots>, N\<close>, however
  they are interleaved with other transactions, and the same holds for \<open>recordSupply\<close>.
\<close>

theorem ids_are_dense:
  "demandIds (events (run fhe deployed ts)) = firstIds (unat (demandCount (run fhe deployed ts)))
   \<and> supplyIds (events (run fhe deployed ts)) = firstIds (unat (supplyCount (run fhe deployed ts)))
   \<and> pricingIds (events (run fhe deployed ts)) = firstIds (unat (pricingCount (run fhe deployed ts)))
   \<and> demandIds (events (run fhe deployed ts)) = firstIds (successes isRecordDemand fhe deployed ts)
   \<and> supplyIds (events (run fhe deployed ts)) = firstIds (successes isRecordSupply fhe deployed ts)
   \<and> pricingIds (events (run fhe deployed ts)) = firstIds (successes isComputePricing fhe deployed ts)
   \<and> distinct (demandIds (events (run fhe deployed ts)))
   \<and> distinct (supplyIds (events (run fhe deployed ts)))
   \<and> distinct (pricingIds (events (run fhe deployed ts)))
   \<and> (length (filter isRecordDemand ts) < 2 ^ 256 \<longrightarrow>
        demandIds (events (run fhe deployed ts)) = firstIds (length (filter isRecordDemand ts)))
   \<and> (length (filter isRecordSupply ts) < 2 ^ 256 \<longrightarrow>
        supplyIds (events (run fhe deployed ts)) = firstIds (length (filter isRecordSupply ts)))"
proof -
  have dense: "ids_dense (run fhe deployed ts)"
    by (rule dense_run [OF dense_deployed])
  then have d: "demandIds (events (run fhe deployed ts))
        = firstIds (unat (demandCount (run fhe deployed ts)))"
    and u: "supplyIds (events (run fhe deployed ts))
        = firstIds (unat (supplyCount (run fhe deployed ts)))"
    and p: "pricingIds (events (run fhe deployed ts))
        = firstIds (unat (pricingCount (run fhe deployed ts)))"
    by (simp_all add: ids_dense_def)
  have z: "unat (demandCount deployed) = 0" "unat (supplyCount deployed) = 0"
    "unat (pricingCount deployed) = 0"
    by (simp_all add: deployed_def)
  have ds: "demandIds (events (run fhe deployed ts))
        = firstIds (successes isRecordDemand fhe deployed ts)"
    using d by (simp add: demandCount_successes z)
  have us: "supplyIds (events (run fhe deployed ts))
        = firstIds (successes isRecordSupply fhe deployed ts)"
    using u by (simp add: supplyCount_successes z)
  have ps: "pricingIds (events (run fhe deployed ts))
        = firstIds (successes isComputePricing fhe deployed ts)"
    using p by (simp add: pricingCount_successes z)
  have dn: "demandIds (events (run fhe deployed ts)) = firstIds (length (filter isRecordDemand ts))"
    if "length (filter isRecordDemand ts) < 2 ^ 256"
  proof -
    from that have "unat (demandCount deployed) + length (filter isRecordDemand ts) < 2 ^ LENGTH(256)"
      by (simp add: z)
    from demandCount_run [OF this, of fhe] d show ?thesis by (simp add: z)
  qed
  have un: "supplyIds (events (run fhe deployed ts)) = firstIds (length (filter isRecordSupply ts))"
    if "length (filter isRecordSupply ts) < 2 ^ 256"
  proof -
    from that have "unat (supplyCount deployed) + length (filter isRecordSupply ts) < 2 ^ LENGTH(256)"
      by (simp add: z)
    from supplyCount_run [OF this, of fhe] u show ?thesis by (simp add: z)
  qed
  have dd: "distinct (demandIds (events (run fhe deployed ts)))"
    and du: "distinct (supplyIds (events (run fhe deployed ts)))"
    and dp: "distinct (pricingIds (events (run fhe deployed ts)))"
    by (simp_all only: d u p distinct_firstIds_unat)
  from d u p ds us ps dd du dp dn un show ?thesis
    by blast
qed

theorem ids_are_dense_witness:
  "length (filter isRecordDemand
      [RecordDemand 1700000000 11 12, RecordSupply 1700000000 11 13,
       RecordDemand 1700000060 21 22, CalculateSurgePricing (Some 7) 1 1,
       ComputePricing 7 (Some [5, 180, 5, 100]) [0],
       ComputePricing 7 (Some [5, 180, 5, 100]) [1],
       ComputePricing 7 (Some [5, 180, 6, 100]) [1],
       ComputePricing 7 (Some [5, 180, 5, 100]) [1],
       RecordDemand 1700000120 31 32]) < 2 ^ 256
   \<and> length (filter isRecordSupply
      [RecordDemand 1700000000 11 12, RecordSupply 1700000000 11 13,
       RecordDemand 1700000060 21 22, CalculateSurgePricing (Some 7) 1 1,
       ComputePricing 7 (Some [5, 180, 5, 100]) [0],
       ComputePricing 7 (Some [5, 180, 5, 100]) [1],
       ComputePricing 7 (Some [5, 180, 6, 100]) [1],
       ComputePricing 7 (Some [5, 180, 5, 100]) [1],
       RecordDemand 1700000120 31 32]) < 2 ^ 256
   \<and> successes isComputePricing fhe_example deployed
      [RecordDemand 1700000000 11 12, RecordSupply 1700000000 11 13,
       RecordDemand 1700000060 21 22, CalculateSurgePricing (Some 7) 1 1,
       ComputePricing 7 (Some [5, 180, 5, 100]) [0],
       ComputePricing 7 (Some [5, 180, 5, 100]) [1],
       ComputePricing 7 (Some [5, 180, 6, 100]) [1],
       ComputePricing 7 (Some [5, 180, 5, 100]) [1],
       RecordDemand 1700000120 31 32] = 2
   \<and> demandIds (events (run fhe_example deployed
      [RecordDemand 1700000000 11 12, RecordSupply 1700000000 11 13,
       RecordDemand 1700000060 21 22, CalculateSurgePricing (Some 7) 1 1,
       ComputePricing 7 (Some [5, 180, 5, 100]) [0],
       ComputePricing 7 (Some [5, 180, 5, 100]) [1],
       ComputePricing 7 (Some [5, 180, 6, 100]) [1],
       ComputePricing 7 (Some [5, 180, 5, 100]) [1],
       RecordDemand 1700000120 31 32]))
      = [1, 2, 3]
   \<and> supplyIds (events (run fhe_example deployed
      [RecordDemand 1700000000 11 12, RecordSupply 1700000000 11 13,
       RecordDemand 1700000060 21 22, CalculateSurgePricing (Some 7) 1 1,
       ComputePricing 7 (Some [5, 180, 5, 100]) [0],
       ComputePricing 7 (Some [5, 180, 5, 100]) [1],
       ComputePricing 7 (Some [5, 180, 6, 100]) [1],
       ComputePricing 7 (Some [5, 180, 5, 100]) [1],
       RecordDemand 1700000120 31 32]))
      = [1]
   \<and> pricingIds (events (run fhe_example deployed
      [RecordDemand 1700000000 11 12, RecordSupply 1700000000 11 13,
       RecordDemand 1700000060 21 22, CalculateSurgePricing (Some 7) 1 1,
       ComputePricing 7 (Some [5, 180, 5, 100]) [0],
       ComputePricing 7 (Some [5, 180, 5, 100]) [1],
       ComputePricing 7 (Some [5, 180, 6, 100]) [1],
       ComputePricing 7 (Some [5, 180, 5, 100]) [1],
       RecordDemand 1700000120 31 32]))
      = [1, 2]"
proof -
  let ?ts = "[RecordDemand 1700000000 11 12, RecordSupply 1700000000 11 13,
       RecordDemand 1700000060 21 22, CalculateSurgePricing (Some 7) 1 1,
       ComputePricing 7 (Some [5, 180, 5, 100]) [0],
       ComputePricing 7 (Some [5, 180, 5, 100]) [1],
       ComputePricing 7 (Some [5, 180, 6, 100]) [1],
       ComputePricing 7 (Some [5, 180, 5, 100]) [1],
       RecordDemand 1700000120 31 32]"
  have d: "length (filter isRecordDemand ?ts) = 3" and u: "length (filter isRecordSupply ?ts) = 1"
    by (simp_all add: isRecordDemand_def isRecordSupply_def)
  have c: "successes isComputePricing fhe_example deployed ?ts = 2"
    by (simp add: isComputePricing_def tx_defs)
  have hd: "length (filter isRecordDemand ?ts) < 2 ^ 256"
    and hu: "length (filter isRecordSupply ?ts) < 2 ^ 256"
    by (simp_all only: d u) simp_all
  from ids_are_dense [of fhe_example ?ts] hd hu
  have "demandIds (events (run fhe_example deployed ?ts)) = firstIds (length (filter isRecordDemand ?ts))"
    and "supplyIds (events (run fhe_example deployed ?ts)) = firstIds (length (filter isRecordSupply ?ts))"
    and "pricingIds (events (run fhe_example deployed ?ts))
          = firstIds (successes isComputePricing fhe_example deployed ?ts)"
    by blast+
  then have e: "demandIds (events (run fhe_example deployed ?ts)) = firstIds 3"
    "supplyIds (events (run fhe_example deployed ?ts)) = firstIds 1"
    "pricingIds (events (run fhe_example deployed ?ts)) = firstIds 2"
    by (simp_all only: d u c)
  have f: "firstIds 3 = [1, 2, 3]" "firstIds 1 = [1]" "firstIds 2 = [1, 2]"
    by (simp_all add: firstIds_def upt_rec)
  from hd hu c e show ?thesis
    by (simp only: f)
qed

end
